theory Spec2Isabelle
  imports Complex_Main
begin

section \<open>Strings, errors and the persisted documents\<close>

text \<open>
  A JavaScript string is a sequence of UTF-16 code units; it is modelled as the list of
  these code units, so that the em dashes of the local templates, the whitespace set of
  \<^verbatim>\<open>trim\<close> and \<^verbatim>\<open>\s\<close>, and the line terminators excluded by \<^verbatim>\<open>.\<close> are all
  exactly those of ECMAScript. \<open>lit\<close> turns an ASCII literal into its code units.
\<close>

type_synonym jstring = "nat list"

abbreviation lit :: "string \<Rightarrow> jstring" where
  "lit s \<equiv> map of_char s"

text \<open>
  Every failure of the server is \<^verbatim>\<open>throw new Error(message)\<close> (or a rejected promise
  carrying such an object), and the handlers read only \<^verbatim>\<open>e.message\<close>. The named
  error kinds of the design are the messages the code throws.
\<close>

datatype error = Error (message: jstring)

definition NotAuthenticated :: error where
  "NotAuthenticated = Error (lit ''Not authenticated'')"

definition RefreshFailed :: "jstring \<Rightarrow> error" where
  "RefreshFailed reason = Error (lit ''Token refresh failed: '' @ reason)"

definition NotFound :: error where
  "NotFound = Error (lit ''Video not found'')"

text \<open>\<^verbatim>\<open>if (s)\<close> on a string that may be undefined: true for a non-empty string only.\<close>

fun truthy_str :: "jstring option \<Rightarrow> bool" where
  "truthy_str None = False"
| "truthy_str (Some s) = (s \<noteq> [])"

subsection \<open>Token record and configuration\<close>

text \<open>
  \<^verbatim>\<open>db.tokens = { access_token, refresh_token, expiry }\<close>. A field the provider left
  out is \<^verbatim>\<open>undefined\<close> (dropped by \<^verbatim>\<open>JSON.stringify\<close>): \<open>None\<close>. The expiry is
  a number of milliseconds; \<^verbatim>\<open>NaN\<close> (from an absent \<^verbatim>\<open>expires_in\<close>) is persisted as
  \<^verbatim>\<open>null\<close> and read back through \<^verbatim>\<open>expiry || 0\<close>, so \<open>None\<close> stands for it.
\<close>

record token_record =
  access_token :: "jstring option"
  refresh_token :: "jstring option"
  expiry :: "int option"

record config =
  clientId :: "jstring option"
  clientSecret :: "jstring option"
  claudeApiKey :: "jstring option"

text \<open>
  What \<^verbatim>\<open>httpsPost\<close> to the token endpoint settles with: the promise is rejected
  (transport error), or it resolves with the parsed body. The body is read at the fields
  \<^verbatim>\<open>error\<close>, \<^verbatim>\<open>access_token\<close>, \<^verbatim>\<open>refresh_token\<close>, \<^verbatim>\<open>expires_in\<close> (strings and a
  number of seconds, any of them absent; a body that is not an object has none of them);
  the body \<^verbatim>\<open>null\<close> makes the property read throw a TypeError.
\<close>

record payload =
  r_error :: "jstring option"
  r_access_token :: "jstring option"
  r_refresh_token :: "jstring option"
  r_expires_in :: "int option"

datatype token_reply = Rejected jstring | NullBody | Payload payload

definition null_read :: "string \<Rightarrow> error" where
  "null_read field =
     Error (lit ''Cannot read properties of null (reading '' @ [39] @ lit field @ [39] @ lit '')'')"

subsection \<open>Parsed JSON\<close>

text \<open>
  The values \<^verbatim>\<open>JSON.parse\<close> produces. \<^verbatim>\<open>undefined\<close> is not among them: a value
  that may be undefined is a \<open>json option\<close>. An object is its list of members in source
  order; a repeated key reads as its last occurrence.
\<close>

datatype json =
  JNull | JBool bool | JNum rat | JStr jstring | JArr "json list" | JObj "(jstring \<times> json) list"

fun truthy :: "json option \<Rightarrow> bool" where
  "truthy None = False"
| "truthy (Some JNull) = False"
| "truthy (Some (JBool b)) = b"
| "truthy (Some (JNum n)) = (n \<noteq> 0)"
| "truthy (Some (JStr s)) = (s \<noteq> [])"
| "truthy (Some (JArr xs)) = True"
| "truthy (Some (JObj kvs)) = True"

text \<open>
  Whether a value converts to a string (in a template literal) or to a number (in
  \<^verbatim>\<open>length * 2.5\<close>) without a TypeError. A parsed object converts through
  \<^verbatim>\<open>Object.prototype.toString\<close> unless a member of its own named \<^verbatim>\<open>toString\<close>,
  which is never a function, hides it; an array converts through \<^verbatim>\<open>join\<close>, which
  converts its elements.
\<close>

fun stringifiable :: "json \<Rightarrow> bool" where
  "stringifiable (JArr xs) = list_all stringifiable xs"
| "stringifiable (JObj kvs) = (map_of (rev kvs) (lit ''toString'') = None)"
| "stringifiable v = True"

definition cannot_convert :: error where
  "cannot_convert = Error (lit ''Cannot convert object to primitive value'')"

text \<open>
  \<^verbatim>\<open>v.key\<close> for a key that is no built-in property (here \<^verbatim>\<open>content\<close> and
  \<^verbatim>\<open>text\<close>): a TypeError on \<^verbatim>\<open>null\<close>, the member of an object, undefined on
  anything else.
\<close>

fun member :: "string \<Rightarrow> json \<Rightarrow> error + json option" where
  "member k JNull = Inl (null_read k)"
| "member k (JObj kvs) = Inr (map_of (rev kvs) (lit k))"
| "member k v = Inr None"

text \<open>\<^verbatim>\<open>v[0]\<close> on a value that is neither null nor undefined.\<close>

fun index0 :: "json \<Rightarrow> json option" where
  "index0 (JArr xs) = (case xs of [] \<Rightarrow> None | x # _ \<Rightarrow> Some x)"
| "index0 (JStr s) = (case s of [] \<Rightarrow> None | c # _ \<Rightarrow> Some (JStr [c]))"
| "index0 (JObj kvs) = map_of (rev kvs) (lit ''0'')"
| "index0 v = None"

text \<open>
  Optional chaining \<^verbatim>\<open>v?.p\<close>: undefined when \<^verbatim>\<open>v\<close> is null or undefined, the
  plain access otherwise (which then cannot throw).
\<close>

definition opt_chain :: "(json \<Rightarrow> json option) \<Rightarrow> json option \<Rightarrow> json option" where
  "opt_chain access v =
     (case v of None \<Rightarrow> None | Some JNull \<Rightarrow> None | Some x \<Rightarrow> access x)"

definition member_of :: "string \<Rightarrow> json \<Rightarrow> json option" where
  "member_of k v = (case member k v of Inl e \<Rightarrow> None | Inr r \<Rightarrow> r)"

subsection \<open>Video drafts and the data store\<close>

text \<open>
  A generated script. The title is a string or, where the parser falls back to it, the
  topic as the request gave it, which need not be a string.
\<close>

record generated =
  title :: json
  hook :: jstring
  script :: jstring
  hashtags :: jstring

record metadata =
  m_title :: json
  description :: jstring
  tags :: "jstring list"
  categoryId :: jstring
  privacyStatus :: jstring

datatype status = StatusDraft | StatusScheduled | StatusError

text \<open>
  One element of \<^verbatim>\<open>db.videos\<close>. \<open>createdAt\<close> and \<open>scheduledAt\<close> hold the instant
  (milliseconds) whose ISO-8601 rendering the source stores; \<open>scheduledAt\<close>,
  \<open>youtubeMetadata\<close> and \<open>error\<close> are absent until the scheduler sets them.
\<close>

record video = generated +
  id_v :: jstring
  topic :: json
  tone :: json
  length_v :: json
  status :: status
  createdAt :: int
  scheduledFor :: json
  emoji :: jstring
  scheduledAt :: "int option"
  youtubeMetadata :: "metadata option"
  error :: "jstring option"

record channel_info =
  ch_id :: "jstring option"
  ch_title :: "jstring option"
  handle :: "jstring option"
  thumbnail :: "jstring option"
  subscribers :: "jstring option"
  views :: "jstring option"
  videoCount :: "jstring option"

record db =
  videos :: "video list"
  tokens :: "token_record option"
  channel :: "channel_info option"

subsection \<open>The world: two files and what left the process\<close>

text \<open>
  \<^verbatim>\<open>data.json\<close> and \<^verbatim>\<open>config.json\<close> may not exist yet. The trace records, in order,
  every request sent to an external service and every write of a file, so that "the
  refresh endpoint is not called" and "nothing is written" are statements about it.
\<close>

datatype event =
    RefreshRequest "jstring option" "jstring option" "jstring option"
  | ExchangeRequest jstring "jstring option" "jstring option"
  | ChannelRequest "jstring option"
  | GenerationRequest json
  | WriteDB db
  | WriteConfig config

record world =
  db_file :: "db option"
  cfg_file :: "config option"
  trace :: "event list"

definition loadConfig :: "world \<Rightarrow> config" where
  "loadConfig w =
     (case cfg_file w of
        Some c \<Rightarrow> c
      | None \<Rightarrow> \<lparr>clientId = None, clientSecret = None, claudeApiKey = None\<rparr>)"

definition saveConfig :: "config \<Rightarrow> world \<Rightarrow> world" where
  "saveConfig c w = w\<lparr>cfg_file := Some c, trace := trace w @ [WriteConfig c]\<rparr>"

definition loadDB :: "world \<Rightarrow> db" where
  "loadDB w =
     (case db_file w of
        Some d \<Rightarrow> d
      | None \<Rightarrow> \<lparr>videos = [], tokens = None, channel = None\<rparr>)"

definition saveDB :: "db \<Rightarrow> world \<Rightarrow> world" where
  "saveDB d w = w\<lparr>db_file := Some d, trace := trace w @ [WriteDB d]\<rparr>"

definition called :: "event \<Rightarrow> world \<Rightarrow> world" where
  "called ev w = w\<lparr>trace := trace w @ [ev]\<rparr>"

section \<open>Token manager\<close>

text \<open>
  \<^verbatim>\<open>getValidToken\<close>. The clock is read twice, before and after the awaited refresh:
  \<open>t_check\<close> and \<open>t_store\<close>. \<open>reply\<close> is what the token endpoint answers if it is
  asked. The result is the thrown error or the returned access token, with the world
  after the call.
\<close>

definition expiry_or_0 :: "token_record \<Rightarrow> int" where
  "expiry_or_0 tk = (case expiry tk of None \<Rightarrow> 0 | Some e \<Rightarrow> e)"

text \<open>
  \<^verbatim>\<open>if (refreshed.error)\<close>, \<^verbatim>\<open>if (tokens.error)\<close>: the error of a reply, when it is
  a non-empty string.
\<close>

definition reply_error :: "payload \<Rightarrow> jstring option" where
  "reply_error r =
     (case r_error r of None \<Rightarrow> None | Some e \<Rightarrow> if e \<noteq> [] then Some e else None)"

definition getValidToken ::
  "int \<Rightarrow> int \<Rightarrow> token_reply \<Rightarrow> world \<Rightarrow> (error + jstring option) \<times> world" where
  "getValidToken t_check t_store reply w =
     (let db = loadDB w; cfg = loadConfig w in
      case tokens db of
        None \<Rightarrow> (Inl NotAuthenticated, w)
      | Some tk \<Rightarrow>
          if t_check < expiry_or_0 tk - 60000 then (Inr (access_token tk), w)
          else
            let w1 = called (RefreshRequest (refresh_token tk) (clientId cfg) (clientSecret cfg)) w in
            (case reply of
               Rejected msg \<Rightarrow> (Inl (Error msg), w1)
             | NullBody \<Rightarrow> (Inl (null_read ''error''), w1)
             | Payload r \<Rightarrow>
                 (case reply_error r of
                    Some e \<Rightarrow> (Inl (RefreshFailed e), w1)
                  | None \<Rightarrow>
                      let tk' = tk\<lparr>access_token := r_access_token r,
                                    expiry := map_option (\<lambda>s. t_store + s * 1000) (r_expires_in r)\<rparr>
                      in (Inr (access_token tk'), saveDB (db\<lparr>tokens := Some tk'\<rparr>) w1))))"

section \<open>Text helpers\<close>

text \<open>
  The white space of ECMAScript (WhiteSpace and LineTerminator code units), which is what
  \<^verbatim>\<open>String.prototype.trim\<close> strips and \<^verbatim>\<open>\s\<close> matches; the line terminators are
  what \<^verbatim>\<open>.\<close> does not match.
\<close>

definition is_space :: "nat \<Rightarrow> bool" where
  "is_space c =
     (c \<in> {9, 10, 11, 12, 13, 32, 160, 5760, 8232, 8233, 8239, 8287, 12288, 65279}
      \<or> (8192 \<le> c \<and> c \<le> 8202))"

definition is_line_terminator :: "nat \<Rightarrow> bool" where
  "is_line_terminator c = (c \<in> {10, 13, 8232, 8233})"

definition trim :: "jstring \<Rightarrow> jstring" where
  "trim s = rev (dropWhile is_space (rev (dropWhile is_space s)))"

text \<open>\<^verbatim>\<open>s.split(sep)\<close> for a separator of one code unit: never the empty array.\<close>

fun split_on :: "nat \<Rightarrow> jstring \<Rightarrow> jstring list" where
  "split_on sep [] = [[]]"
| "split_on sep (c # cs) =
     (if c = sep then [] # split_on sep cs
      else (case split_on sep cs of [] \<Rightarrow> [[c]] | w # ws \<Rightarrow> (c # w) # ws))"

section \<open>Scheduler\<close>

text \<open>
  \<^verbatim>\<open>db.videos.find(p)\<close> returns a reference into the array, and the assignments to its
  fields change that element in place: the first element satisfying \<open>p\<close>.
\<close>

fun modify_first :: "('a \<Rightarrow> bool) \<Rightarrow> ('a \<Rightarrow> 'a) \<Rightarrow> 'a list \<Rightarrow> 'a list" where
  "modify_first p f [] = []"
| "modify_first p f (x # xs) = (if p x then f x # xs else x # modify_first p f xs)"

definition youtubeMetadata_of :: "video \<Rightarrow> metadata" where
  "youtubeMetadata_of v =
     \<lparr>m_title = title v,
      description = script v @ [10, 10] @ hashtags v @ [10, 10] @ lit ''#Shorts'',
      tags = map trim (filter (\<lambda>t. trim t \<noteq> []) (split_on 35 (hashtags v))),
      categoryId = lit ''22'',
      privacyStatus = lit ''public''\<rparr>"

definition mark_scheduled :: "int \<Rightarrow> video \<Rightarrow> video" where
  "mark_scheduled t_sched v =
     v\<lparr>status := StatusScheduled, scheduledAt := Some t_sched,
       youtubeMetadata := Some (youtubeMetadata_of v)\<rparr>"

definition mark_error :: "error \<Rightarrow> video \<Rightarrow> video" where
  "mark_error e v = v\<lparr>status := StatusError, error := Some (message e)\<rparr>"

text \<open>
  \<^verbatim>\<open>scheduleVideoPost\<close>. It loads the document before it asks for the token and saves
  that copy afterwards, with the one draft changed. \<open>t_sched\<close> is the clock reading
  stamped on the draft.
\<close>

definition scheduleVideoPost ::
  "jstring \<Rightarrow> int \<Rightarrow> int \<Rightarrow> int \<Rightarrow> token_reply \<Rightarrow> world \<Rightarrow> (error + video) \<times> world" where
  "scheduleVideoPost videoId t_check t_store t_sched reply w =
     (let db = loadDB w in
      case find (\<lambda>v. id_v v = videoId) (videos db) of
        None \<Rightarrow> (Inl NotFound, w)
      | Some video \<Rightarrow>
          (case getValidToken t_check t_store reply w of
             (Inr token, w1) \<Rightarrow>
               (Inr (mark_scheduled t_sched video),
                saveDB (db\<lparr>videos :=
                  modify_first (\<lambda>v. id_v v = videoId) (mark_scheduled t_sched) (videos db)\<rparr>) w1)
           | (Inl e, w1) \<Rightarrow>
               (Inl e,
                saveDB (db\<lparr>videos :=
                  modify_first (\<lambda>v. id_v v = videoId) (mark_error e) (videos db)\<rparr>) w1)))"

section \<open>Script generator\<close>

subsection \<open>The regular expressions of the parser\<close>

text \<open>
  The four expressions of \<^verbatim>\<open>parseGeneratedScript\<close> are sequences of: a literal, a
  quantified character class (greedy \<^verbatim>\<open>*\<close> and \<^verbatim>\<open>+\<close>, lazy \<^verbatim>\<open>+?\<close>), one
  capturing group around such a class, a lookahead over alternatives, and \<^verbatim>\<open>$\<close>.
  The matcher below is the backtracking matcher of ECMAScript on that fragment: every
  piece yields the inputs it can leave behind, in the order in which backtracking tries
  them, and the first complete path from the leftmost possible start is the match.
\<close>

datatype cls = Space | Dot | AnyChar

fun in_cls :: "cls \<Rightarrow> nat \<Rightarrow> bool" where
  "in_cls Space c = is_space c"
| "in_cls Dot c = (\<not> is_line_terminator c)"
| "in_cls AnyChar c = True"

datatype atom = Lit string | Eos | Star cls | Plus cls | LazyPlus cls

datatype item = Atom atom | Group atom | Lookahead "atom list"

type_synonym regex = "item list"

text \<open>
  The flag \<^verbatim>\<open>i\<close> compares canonicalised code units. The patterns are ASCII, and a
  code unit outside ASCII never canonicalises to an ASCII one, so folding a-z is exact.
\<close>

definition canon :: "nat \<Rightarrow> nat" where
  "canon c = (if 97 \<le> c \<and> c \<le> 122 then c - 32 else c)"

fun match_lit :: "jstring \<Rightarrow> jstring \<Rightarrow> jstring option" where
  "match_lit [] s = Some s"
| "match_lit (p # ps) [] = None"
| "match_lit (p # ps) (c # cs) = (if canon c = canon p then match_lit ps cs else None)"

definition run_length :: "cls \<Rightarrow> jstring \<Rightarrow> nat" where
  "run_length k s = length (takeWhile (in_cls k) s)"

fun m_atom :: "atom \<Rightarrow> jstring \<Rightarrow> jstring list" where
  "m_atom (Lit p) s = (case match_lit (lit p) s of None \<Rightarrow> [] | Some r \<Rightarrow> [r])"
| "m_atom Eos s = (if s = [] then [s] else [])"
| "m_atom (Star k) s = map (\<lambda>n. drop n s) (rev [0 ..< Suc (run_length k s)])"
| "m_atom (Plus k) s = map (\<lambda>n. drop n s) (rev [1 ..< Suc (run_length k s)])"
| "m_atom (LazyPlus k) s = map (\<lambda>n. drop n s) [1 ..< Suc (run_length k s)]"

text \<open>A matcher state: the input still to read and the text of group 1, if captured.\<close>

fun m_item :: "item \<Rightarrow> jstring \<times> jstring option \<Rightarrow> (jstring \<times> jstring option) list" where
  "m_item (Atom a) (s, cap) = map (\<lambda>r. (r, cap)) (m_atom a s)"
| "m_item (Group a) (s, cap) =
     map (\<lambda>r. (r, Some (take (length s - length r) s))) (m_atom a s)"
| "m_item (Lookahead alts) (s, cap) =
     (if list_ex (\<lambda>a. m_atom a s \<noteq> []) alts then [(s, cap)] else [])"

fun m_seq :: "regex \<Rightarrow> jstring \<times> jstring option \<Rightarrow> (jstring \<times> jstring option) list" where
  "m_seq [] st = [st]"
| "m_seq (i # is) st = concat (map (m_seq is) (m_item i st))"

text \<open>
  \<^verbatim>\<open>text.match(re)\<close> without the flag \<^verbatim>\<open>g\<close>: \<open>None\<close> is \<^verbatim>\<open>null\<close>, otherwise the
  value of \<^verbatim>\<open>m[1]\<close> of the leftmost match.
\<close>

fun match_re :: "regex \<Rightarrow> jstring \<Rightarrow> jstring option option" where
  "match_re re [] =
     (case m_seq re ([], None) of [] \<Rightarrow> None | (rest, cap) # _ \<Rightarrow> Some cap)"
| "match_re re (c # cs) =
     (case m_seq re (c # cs, None) of [] \<Rightarrow> match_re re cs | (rest, cap) # _ \<Rightarrow> Some cap)"

definition title_re :: regex where
  "title_re = [Atom (Lit ''TITLE:''), Atom (Star Space), Group (Plus Dot)]"

definition hook_re :: regex where
  "hook_re = [Atom (Lit ''HOOK:''), Atom (Star Space), Group (Plus Dot)]"

definition script_re :: regex where
  "script_re =
     [Atom (Lit ''SCRIPT:''), Atom (Star Space), Group (LazyPlus AnyChar),
      Lookahead [Lit ''HASHTAGS:'', Eos]]"

definition hashtags_re :: regex where
  "hashtags_re = [Atom (Lit ''HASHTAGS:''), Atom (Star Space), Group (Plus Dot)]"

text \<open>
  \<^verbatim>\<open>m?.[1]?.trim()\<close> when it is truthy, that is a non-empty string; \<open>None\<close> is
  every case in which \<^verbatim>\<open>|| dflt\<close> takes the default: no match, and a capture that
  trims to the empty string.
\<close>

fun trimmed :: "jstring option option \<Rightarrow> jstring option" where
  "trimmed None = None"
| "trimmed (Some None) = None"
| "trimmed (Some (Some c)) = (if trim c = [] then None else Some (trim c))"

definition trimmed_or :: "jstring option option \<Rightarrow> jstring \<Rightarrow> jstring" where
  "trimmed_or m dflt = (case trimmed m of None \<Rightarrow> dflt | Some t \<Rightarrow> t)"

text \<open>
  \<^verbatim>\<open>parseGeneratedScript\<close>. The text is a string; the topic is whatever value the
  caller passed, and becomes the title when the title does not parse.
\<close>

definition parseGeneratedScript :: "jstring \<Rightarrow> json \<Rightarrow> generated" where
  "parseGeneratedScript text topic' =
     \<lparr>title = (case trimmed (match_re title_re text) of None \<Rightarrow> topic' | Some t \<Rightarrow> JStr t),
      hook = trimmed_or (match_re hook_re text) [],
      script = trimmed_or (match_re script_re text) text,
      hashtags = trimmed_or (match_re hashtags_re text) (lit ''#shorts #viral #trending'')\<rparr>"

subsection \<open>The local generator\<close>

fun join :: "jstring \<Rightarrow> jstring list \<Rightarrow> jstring" where
  "join sep [] = []"
| "join sep [x] = x"
| "join sep (x # y # ys) = x @ sep @ join sep (y # ys)"

text \<open>
  A value of \<^verbatim>\<open>Math.random()\<close>: a number from 0 up to, but not including, 1. With it
  the index of \<^verbatim>\<open>xs[Math.floor(Math.random() * xs.length)]\<close> is in range for every
  list that is not empty.
\<close>

typedef draw = "{u :: real. 0 \<le> u \<and> u < 1}"
  by (intro exI [of _ 0]) simp

definition pick :: "draw \<Rightarrow> 'a list \<Rightarrow> 'a" where
  "pick u xs = xs ! nat \<lfloor>Rep_draw u * real (length xs)\<rfloor>"

definition hooks :: "jstring \<Rightarrow> jstring list" where
  "hooks topic' =
     [lit ''Nobody talks about this but it's the #1 thing you need to know about '' @ topic'
        @ lit ''.'',
      lit ''Stop scrolling '' @ [8212] @ lit '' this '' @ topic'
        @ lit '' tip will change how you think.'',
      lit ''I tried '' @ topic' @ lit '' for 30 days. Here's what actually happened.'',
      lit ''The truth about '' @ topic' @ lit '' that nobody tells you.'',
      lit ''If you care about '' @ topic' @ lit '', watch this right now.'']"

definition script_of :: "jstring \<Rightarrow> jstring \<Rightarrow> jstring" where
  "script_of hk topic' =
     hk @ [10, 10] @ lit ''Here's what I discovered:'' @ [10, 10]
     @ lit ''First '' @ [8212] @ lit '' most people approach '' @ topic'
     @ lit '' completely wrong. They focus on the wrong things and wonder why they're not seeing results.''
     @ [10, 10] @ lit ''Second '' @ [8212]
     @ lit '' the secret is consistency. Not perfection. Not talent. Just showing up every single day and doing the work.''
     @ [10, 10] @ lit ''Third '' @ [8212]
     @ lit '' track your progress. What gets measured gets improved. Start small, stay consistent, and the results will come.''
     @ [10, 10] @ lit ''The bottom line? '' @ topic'
     @ lit '' is simpler than you think. Most people overcomplicate it.''
     @ [10, 10]
     @ lit ''Save this video and share it with someone who needs to hear this. And follow for more tips like this every day.''"

definition titles :: "jstring \<Rightarrow> jstring list" where
  "titles titleWords =
     [lit ''The Truth About '' @ titleWords,
      titleWords @ lit '': What Nobody Tells You'',
      lit ''I Tried '' @ titleWords @ lit '' For 30 Days'',
      lit ''Stop Making This '' @ titleWords @ lit '' Mistake'']"

text \<open>
  \<^verbatim>\<open>localGenerate\<close>. The templates convert the topic to a string, and
  \<^verbatim>\<open>topic.split\<close> and \<^verbatim>\<open>topic.replace\<close> exist on a string only: for any other
  topic the function throws a TypeError. \<open>lc\<close> is \<^verbatim>\<open>String.prototype.toLowerCase\<close>,
  whose Unicode case tables are no part of the program: it is a parameter, and nothing
  below depends on what it returns.
\<close>

definition local_script :: "(jstring \<Rightarrow> jstring) \<Rightarrow> jstring \<Rightarrow> draw \<Rightarrow> draw \<Rightarrow> generated" where
  "local_script lc s u_hook u_title =
     (let hk = pick u_hook (hooks s);
          titleWords = join (lit '' '') (take 4 (split_on 32 s))
      in \<lparr>title = JStr (pick u_title (titles titleWords)),
          hook = hk,
          script = script_of hk s,
          hashtags = lit ''#'' @ lc (filter (\<lambda>c. \<not> is_space c) s)
                     @ lit '' #shorts #viral #trending #fyp''\<rparr>)"

definition localGenerate ::
  "(jstring \<Rightarrow> jstring) \<Rightarrow> json \<Rightarrow> json \<Rightarrow> json \<Rightarrow> draw \<Rightarrow> draw \<Rightarrow> error + generated" where
  "localGenerate lc topic' tone' len u_hook u_title =
     (if \<not> stringifiable topic' then Inl cannot_convert
      else case topic' of
             JStr s \<Rightarrow> Inr (local_script lc s u_hook u_title)
           | JNull \<Rightarrow> Inl (null_read ''split'')
           | _ \<Rightarrow> Inl (Error (lit ''topic.split is not a function'')))"

subsection \<open>The external call and its fallback\<close>

text \<open>
  How the request to the generation API ends: the promise is rejected (transport error),
  the body is no JSON (the handler resolves with \<^verbatim>\<open>{}\<close>), the body parses, or the
  promise never settles (the request has no timeout, so a server that does not answer
  leaves \<^verbatim>\<open>generateScript\<close> waiting for ever).
\<close>

datatype api_reply = ApiRejected jstring | ApiUnparseable | ApiBody json | ApiPending

text \<open>\<^verbatim>\<open>result.content?.[0]?.text\<close>.\<close>

definition response_text :: "json \<Rightarrow> error + json option" where
  "response_text result =
     (case member ''content'' result of
        Inl e \<Rightarrow> Inl e
      | Inr content \<Rightarrow> Inr (opt_chain (member_of ''text'') (opt_chain index0 content)))"

text \<open>
  What follows the awaited request in the \<^verbatim>\<open>try\<close> block: a thrown error, or \<open>Some\<close>
  of the value it returns, or \<open>None\<close> when control leaves the block at its end. A text
  that is truthy but no string has no method \<^verbatim>\<open>match\<close>.
\<close>

definition read_result :: "json \<Rightarrow> json \<Rightarrow> error + generated option" where
  "read_result result topic' =
     (case response_text result of
        Inl e \<Rightarrow> Inl e
      | Inr t \<Rightarrow>
          if truthy t then
            (case t of
               Some (JStr s) \<Rightarrow> Inr (Some (parseGeneratedScript s topic'))
             | _ \<Rightarrow> Inl (Error (lit ''text.match is not a function'')))
          else Inr None)"

text \<open>
  The awaited request and what follows it: \<open>None\<close> when the request never settles.
\<close>

definition try_external :: "api_reply \<Rightarrow> json \<Rightarrow> (error + generated option) option" where
  "try_external api topic' =
     (case api of
        ApiPending \<Rightarrow> None
      | ApiRejected msg \<Rightarrow> Some (Inl (Error msg))
      | ApiUnparseable \<Rightarrow> Some (read_result (JObj []) topic')
      | ApiBody result \<Rightarrow> Some (read_result result topic'))"

text \<open>
  Building the prompt converts length, topic and tone to strings and the length to a
  number, inside the \<^verbatim>\<open>try\<close> block and before the request is made. The text of the
  prompt is not modelled: nothing read back depends on it.
\<close>

definition prompt_builds :: "json \<Rightarrow> json \<Rightarrow> json \<Rightarrow> bool" where
  "prompt_builds topic' tone' len = (stringifiable len \<and> stringifiable topic' \<and> stringifiable tone')"

text \<open>
  \<^verbatim>\<open>generateScript\<close>. \<open>u_hook\<close> and \<open>u_title\<close> are the two draws of the local
  generator. The first component of the result is \<open>None\<close> when the function never
  returns, and otherwise the error it throws or the script it returns: every error of
  the \<^verbatim>\<open>try\<close> block is caught, and the call of \<^verbatim>\<open>localGenerate\<close> after it is not
  guarded.
\<close>

definition generateScript ::
  "(jstring \<Rightarrow> jstring) \<Rightarrow> json \<Rightarrow> json \<Rightarrow> json \<Rightarrow> api_reply \<Rightarrow> draw \<Rightarrow> draw \<Rightarrow> world
     \<Rightarrow> (error + generated) option \<times> world" where
  "generateScript lc topic' tone' len api u_hook u_title w =
     (let cfg = loadConfig w in
      if truthy_str (claudeApiKey cfg) then
        if prompt_builds topic' tone' len then
          let w1 = called (GenerationRequest topic') w in
          (case try_external api topic' of
             None \<Rightarrow> (None, w1)
           | Some (Inr (Some g)) \<Rightarrow> (Some (Inr g), w1)
           | Some (Inr None) \<Rightarrow> (Some (localGenerate lc topic' tone' len u_hook u_title), w1)
           | Some (Inl e) \<Rightarrow> (Some (localGenerate lc topic' tone' len u_hook u_title), w1))
        else (Some (localGenerate lc topic' tone' len u_hook u_title), w)
      else (Some (localGenerate lc topic' tone' len u_hook u_title), w))"

section \<open>Routes that change the token record\<close>

text \<open>
  What a handler sends back: a JSON reply with status 200, a JSON error reply with its
  status and message, the HTML page that redirects the browser to a location, or
  nothing at all, when the handler waits for ever.
\<close>

datatype response = Ok200 | Failed nat jstring | Page jstring | NoReply

text \<open>
  \<^verbatim>\<open>/auth/callback\<close>. \<open>code\<close> and \<open>err\<close> are the query parameters, \<open>reply\<close> what
  the token endpoint answers to the code exchange, and \<open>chan\<close> how \<^verbatim>\<open>getChannelInfo\<close>
  ends: thrown error or the channel (possibly null). An error thrown outside the inner
  \<^verbatim>\<open>try\<close> reaches the handler's \<^verbatim>\<open>catch\<close>, which answers 500.
\<close>

definition auth_callback ::
  "jstring option \<Rightarrow> jstring option \<Rightarrow> int \<Rightarrow> token_reply \<Rightarrow> error + channel_info option
     \<Rightarrow> world \<Rightarrow> response \<times> world" where
  "auth_callback code err t_now reply chan w =
     (case (if truthy_str err then err else None) of
        Some reason \<Rightarrow> (Page (lit ''/?auth=error&reason='' @ reason), w)
      | None \<Rightarrow>
     (case (if truthy_str code then code else None) of
        None \<Rightarrow> (Page (lit ''/?auth=error&reason=no_code''), w)
      | Some c \<Rightarrow>
          let cfg = loadConfig w;
              w1 = called (ExchangeRequest c (clientId cfg) (clientSecret cfg)) w in
          (case reply of
             Rejected msg \<Rightarrow> (Failed 500 msg, w1)
           | NullBody \<Rightarrow> (Failed 500 (message (null_read ''error'')), w1)
           | Payload r \<Rightarrow>
               (case reply_error r of
                  Some e \<Rightarrow> (Page (lit ''/?auth=error&reason='' @ e), w1)
                | None \<Rightarrow>
                    let db = loadDB w1;
                        db1 = db\<lparr>tokens := Some
                                \<lparr>access_token = r_access_token r,
                                 refresh_token = r_refresh_token r,
                                 expiry = map_option (\<lambda>s. t_now + s * 1000) (r_expires_in r)\<rparr>\<rparr>;
                        w2 = called (ChannelRequest (r_access_token r)) w1;
                        db2 = (case chan of Inl e \<Rightarrow> db1 | Inr ch \<Rightarrow> db1\<lparr>channel := ch\<rparr>)
                    in (Page (lit ''/?auth=success''), saveDB db2 w2)))))"

text \<open>\<^verbatim>\<open>/auth/disconnect\<close>.\<close>

definition auth_disconnect :: "world \<Rightarrow> response \<times> world" where
  "auth_disconnect w =
     (let db = loadDB w in (Ok200, saveDB (db\<lparr>tokens := None, channel := None\<rparr>) w))"

section \<open>Routes that change the draft store\<close>

text \<open>
  \<^verbatim>\<open>Date.now().toString()\<close>: the decimal digits of an integer (every clock reading
  is far below the 10^21 from which JavaScript switches to exponent notation).
\<close>

fun digits :: "nat \<Rightarrow> jstring" where
  "digits n = (if n < 10 then [48 + n] else digits (n div 10) @ [48 + n mod 10])"

definition toString :: "int \<Rightarrow> jstring" where
  "toString n = (if n < 0 then 45 # digits (nat (- n)) else digits (nat n))"

record generate_body =
  b_topic :: "json option"
  b_tone :: "json option"
  b_length :: "json option"
  b_scheduleFor :: "json option"

definition emojis :: "jstring list" where
  "emojis =
     [[55357, 56613], [55357, 56481], [55357, 56960], [55356, 57263], [10024],
      [55357, 56491], [9889], [55356, 57260], [55357, 56561], [55358, 56800]]"

text \<open>
  The draft built by \<^verbatim>\<open>/api/generate\<close>: \<open>t_id\<close> and \<open>t_created\<close> are the two clock
  readings, \<open>u_emoji\<close> the draw for the emoji.
\<close>

definition new_draft ::
  "generate_body \<Rightarrow> json \<Rightarrow> generated \<Rightarrow> int \<Rightarrow> int \<Rightarrow> draw \<Rightarrow> video" where
  "new_draft body topic' g t_id t_created u_emoji =
     \<lparr>title = title g, hook = hook g, script = script g, hashtags = hashtags g,
      id_v = toString t_id,
      topic = topic',
      tone = (case b_tone body of None \<Rightarrow> JStr (lit ''Engaging'') | Some t \<Rightarrow> t),
      length_v = (case b_length body of None \<Rightarrow> JNum 60 | Some l \<Rightarrow> l),
      status = StatusDraft,
      createdAt = t_created,
      scheduledFor =
        (case b_scheduleFor body of
           None \<Rightarrow> JNull
         | Some j \<Rightarrow> if truthy (Some j) then j else JNull),
      emoji = pick u_emoji emojis,
      scheduledAt = None, youtubeMetadata = None, error = None\<rparr>"

text \<open>\<^verbatim>\<open>db.videos.unshift(video); if (db.videos.length > 50) db.videos = db.videos.slice(0, 50)\<close>.\<close>

definition insert_draft :: "video \<Rightarrow> video list \<Rightarrow> video list" where
  "insert_draft video vs =
     (let vs1 = video # vs in if length vs1 > 50 then take 50 vs1 else vs1)"

text \<open>
  \<^verbatim>\<open>POST /api/generate\<close>, for a body that parsed to an object. The topic is only
  tested for being truthy. An error thrown by \<^verbatim>\<open>generateScript\<close> reaches the handler's
  \<^verbatim>\<open>catch\<close>, which answers 500; while \<^verbatim>\<open>generateScript\<close> does not return, the
  handler does nothing more.
\<close>

definition api_generate ::
  "(jstring \<Rightarrow> jstring) \<Rightarrow> generate_body \<Rightarrow> int \<Rightarrow> int \<Rightarrow> api_reply \<Rightarrow> draw \<Rightarrow> draw \<Rightarrow> draw
     \<Rightarrow> world \<Rightarrow> response \<times> world" where
  "api_generate lc body t_id t_created api u_hook u_title u_emoji w =
     (case (if truthy (b_topic body) then b_topic body else None) of
        None \<Rightarrow> (Failed 400 (lit ''Topic required''), w)
      | Some topic' \<Rightarrow>
          (case generateScript lc topic'
                  (case b_tone body of None \<Rightarrow> JStr (lit ''Engaging'') | Some t \<Rightarrow> t)
                  (case b_length body of None \<Rightarrow> JNum 60 | Some l \<Rightarrow> l)
                  api u_hook u_title w of
             (None, w1) \<Rightarrow> (NoReply, w1)
           | (Some (Inl e), w1) \<Rightarrow> (Failed 500 (message e), w1)
           | (Some (Inr g), w1) \<Rightarrow>
               let db = loadDB w1;
                   video = new_draft body topic' g t_id t_created u_emoji
               in (Ok200, saveDB (db\<lparr>videos := insert_draft video (videos db)\<rparr>) w1)))"

text \<open>\<^verbatim>\<open>DELETE /api/videos/:id\<close>.\<close>

definition api_delete :: "jstring \<Rightarrow> world \<Rightarrow> response \<times> world" where
  "api_delete i w =
     (let db = loadDB w
      in (Ok200, saveDB (db\<lparr>videos := filter (\<lambda>v. id_v v \<noteq> i) (videos db)\<rparr>) w))"

text \<open>\<^verbatim>\<open>POST /api/videos/:id/schedule\<close>: a thrown error reaches the handler's catch.\<close>

definition api_schedule ::
  "jstring \<Rightarrow> int \<Rightarrow> int \<Rightarrow> int \<Rightarrow> token_reply \<Rightarrow> world \<Rightarrow> response \<times> world" where
  "api_schedule i t_check t_store t_sched reply w =
     (case scheduleVideoPost i t_check t_store t_sched reply w of
        (Inl e, w1) \<Rightarrow> (Failed 500 (message e), w1)
      | (Inr v, w1) \<Rightarrow> (Ok200, w1))"

text \<open>
  \<^verbatim>\<open>/api/channel\<close>. Like the scheduler it saves the document it loaded before the
  token was asked for.
\<close>

definition api_channel ::
  "int \<Rightarrow> int \<Rightarrow> token_reply \<Rightarrow> error + channel_info option \<Rightarrow> world \<Rightarrow> response \<times> world" where
  "api_channel t_check t_store reply chan w =
     (let db = loadDB w in
      case tokens db of
        None \<Rightarrow> (Failed 401 (lit ''Not connected''), w)
      | Some tk \<Rightarrow>
          (case getValidToken t_check t_store reply w of
             (Inl e, w1) \<Rightarrow> (Failed 500 (message e), w1)
           | (Inr token, w1) \<Rightarrow>
               let w2 = called (ChannelRequest token) w1 in
               (case chan of
                  Inl e \<Rightarrow> (Failed 500 (message e), w2)
                | Inr ch \<Rightarrow> (Ok200, saveDB (db\<lparr>channel := ch\<rparr>) w2))))"

text \<open>\<^verbatim>\<open>POST /api/setup\<close>: only \<^verbatim>\<open>config.json\<close> is written.\<close>

record setup_body =
  s_clientId :: "jstring option"
  s_clientSecret :: "jstring option"
  s_claudeApiKey :: "jstring option"

definition api_setup :: "setup_body \<Rightarrow> world \<Rightarrow> response \<times> world" where
  "api_setup body w =
     (let cfg = loadConfig w;
          cfg1 = (if truthy_str (s_clientId body)
                  then cfg\<lparr>clientId := map_option trim (s_clientId body)\<rparr> else cfg);
          cfg2 = (if truthy_str (s_clientSecret body)
                  then cfg1\<lparr>clientSecret := map_option trim (s_clientSecret body)\<rparr> else cfg1);
          cfg3 = (if truthy_str (s_claudeApiKey body)
                  then cfg2\<lparr>claudeApiKey := map_option trim (s_claudeApiKey body)\<rparr> else cfg2)
      in (Ok200, saveConfig cfg3 w))"

section \<open>The server as a machine\<close>

text \<open>
  One request that can write a file, with the clock readings, random draws and replies
  of the external services that its handler meets. The routes that only read
  (\<^verbatim>\<open>/api/status\<close>, \<^verbatim>\<open>/api/videos\<close>, static files) leave the world as it is and
  are left out. Requests are handled one after the other.
\<close>

datatype request =
    Setup setup_body
  | Callback "jstring option" "jstring option" int token_reply "error + channel_info option"
  | Disconnect
  | Generate generate_body int int api_reply draw draw draw
  | Delete jstring
  | Schedule jstring int int int token_reply
  | Channel int int token_reply "error + channel_info option"

fun handle :: "(jstring \<Rightarrow> jstring) \<Rightarrow> request \<Rightarrow> world \<Rightarrow> response \<times> world" where
  "handle lc (Setup body) w = api_setup body w"
| "handle lc (Callback code err t_now reply chan) w = auth_callback code err t_now reply chan w"
| "handle lc Disconnect w = auth_disconnect w"
| "handle lc (Generate body t_id t_created api u_hook u_title u_emoji) w =
     api_generate lc body t_id t_created api u_hook u_title u_emoji w"
| "handle lc (Delete i) w = api_delete i w"
| "handle lc (Schedule i t_check t_store t_sched reply) w =
     api_schedule i t_check t_store t_sched reply w"
| "handle lc (Channel t_check t_store reply chan) w = api_channel t_check t_store reply chan w"

fun run :: "(jstring \<Rightarrow> jstring) \<Rightarrow> request list \<Rightarrow> world \<Rightarrow> world" where
  "run lc [] w = w"
| "run lc (r # rs) w = run lc rs (snd (handle lc r w))"

text \<open>The world of a fresh installation: neither file exists.\<close>

definition fresh_world :: world where
  "fresh_world = \<lparr>db_file = None, cfg_file = None, trace = []\<rparr>"

text \<open>
  The clock readings that became ids while a request list was served from a world:
  the reading of every \<^verbatim>\<open>/api/generate\<close> request that stored a draft.
\<close>

fun created_at :: "(jstring \<Rightarrow> jstring) \<Rightarrow> request \<Rightarrow> world \<Rightarrow> int list" where
  "created_at lc (Generate body t_id t_created api u_hook u_title u_emoji) w =
     (if fst (api_generate lc body t_id t_created api u_hook u_title u_emoji w) = Ok200
      then [t_id] else [])"
| "created_at lc r w = []"

fun id_readings :: "(jstring \<Rightarrow> jstring) \<Rightarrow> request list \<Rightarrow> world \<Rightarrow> int list" where
  "id_readings lc [] w = []"
| "id_readings lc (r # rs) w = created_at lc r w @ id_readings lc rs (snd (handle lc r w))"

section \<open>Vocabulary of the properties\<close>

text \<open>
  What the parser finds is stated with three notions: the input that follows the first
  occurrence of a marker, in any letter case (\<open>None\<close> when the marker does not occur);
  the input that precedes the first occurrence of a marker (all of it when the marker
  does not occur); and the rest of the current line.
\<close>

fun after_marker :: "jstring \<Rightarrow> jstring \<Rightarrow> jstring option" where
  "after_marker p [] = match_lit p []"
| "after_marker p (c # cs) =
     (case match_lit p (c # cs) of Some r \<Rightarrow> Some r | None \<Rightarrow> after_marker p cs)"

fun before_marker :: "jstring \<Rightarrow> jstring \<Rightarrow> jstring" where
  "before_marker p [] = []"
| "before_marker p (c # cs) =
     (if match_lit p (c # cs) \<noteq> None then [] else c # before_marker p cs)"

definition rest_of_line :: "jstring \<Rightarrow> jstring" where
  "rest_of_line s = takeWhile (\<lambda>c. \<not> is_line_terminator c) s"

text \<open>The suffixes of a list, longest first.\<close>

fun sufs :: "'a list \<Rightarrow> 'a list list" where
  "sufs [] = [[]]"
| "sufs (x # xs) = (x # xs) # sufs xs"

section \<open>Sample data\<close>

text \<open>Concrete documents and replies on which the properties below are evaluated.\<close>

definition sample_tokens :: token_record where
  "sample_tokens =
     \<lparr>access_token = Some (lit ''A1''), refresh_token = Some (lit ''R1''),
      expiry = Some 1050000\<rparr>"

definition sample_world :: world where
  "sample_world =
     \<lparr>db_file = Some \<lparr>videos = [], tokens = Some sample_tokens, channel = None\<rparr>,
      cfg_file = Some \<lparr>clientId = Some (lit ''id''), clientSecret = Some (lit ''secret''),
                       claudeApiKey = None\<rparr>,
      trace = []\<rparr>"

definition short_lived_reply :: payload where
  "short_lived_reply =
     \<lparr>r_error = None, r_access_token = Some (lit ''A2''), r_refresh_token = None,
      r_expires_in = Some 30\<rparr>"

definition hour_reply :: payload where
  "hour_reply =
     \<lparr>r_error = None, r_access_token = Some (lit ''A2''), r_refresh_token = None,
      r_expires_in = Some 3600\<rparr>"

definition invalid_grant_reply :: payload where
  "invalid_grant_reply =
     \<lparr>r_error = Some (lit ''invalid_grant''), r_access_token = None, r_refresh_token = None,
      r_expires_in = None\<rparr>"

definition sample_video :: video where
  "sample_video =
     \<lparr>title = JStr (lit ''The Truth About cooking''), hook = lit ''The truth about cooking.'',
      script = lit ''Cook every day.'', hashtags = lit ''#cooking #shorts #fyp'',
      id_v = lit ''1700000000000'', topic = JStr (lit ''cooking''), tone = JStr (lit ''Engaging''),
      length_v = JNum 60, status = StatusDraft, createdAt = 1700000000000,
      scheduledFor = JNull, emoji = [9889], scheduledAt = None, youtubeMetadata = None,
      error = None\<rparr>"

definition draft_world :: world where
  "draft_world =
     \<lparr>db_file = Some \<lparr>videos = [sample_video], tokens = None, channel = None\<rparr>,
      cfg_file = Some \<lparr>clientId = Some (lit ''id''), clientSecret = Some (lit ''secret''),
                       claudeApiKey = None\<rparr>,
      trace = []\<rparr>"

definition exchange_reply :: payload where
  "exchange_reply =
     \<lparr>r_error = None, r_access_token = Some (lit ''A1''), r_refresh_token = Some (lit ''R1''),
      r_expires_in = Some 3600\<rparr>"

definition ready_world :: world where
  "ready_world =
     \<lparr>db_file = Some \<lparr>videos = [sample_video], tokens = Some sample_tokens, channel = None\<rparr>,
      cfg_file = None, trace = []\<rparr>"

definition stale_metadata :: metadata where
  "stale_metadata =
     \<lparr>m_title = JStr (lit ''old''), description = lit ''old'', tags = [], categoryId = lit ''22'',
      privacyStatus = lit ''public''\<rparr>"

definition scheduled_video :: video where
  "scheduled_video =
     sample_video\<lparr>status := StatusScheduled, scheduledAt := Some 5000,
       youtubeMetadata := Some stale_metadata\<rparr>"

definition rescheduling_world :: world where
  "rescheduling_world =
     \<lparr>db_file = Some \<lparr>videos = [scheduled_video], tokens = Some sample_tokens, channel = None\<rparr>,
      cfg_file = None, trace = []\<rparr>"

definition signed_out_world :: world where
  "signed_out_world =
     \<lparr>db_file = Some \<lparr>videos = [scheduled_video], tokens = None, channel = None\<rparr>,
      cfg_file = None, trace = []\<rparr>"

definition full_world :: world where
  "full_world =
     \<lparr>db_file = Some \<lparr>videos = map (\<lambda>k. sample_video\<lparr>id_v := toString (int k)\<rparr>) [0 ..< 50],
                      tokens = None, channel = None\<rparr>,
      cfg_file = None, trace = []\<rparr>"

definition low_draw :: draw where
  "low_draw = Abs_draw 0"

definition cooking_body :: generate_body where
  "cooking_body =
     \<lparr>b_topic = Some (JStr (lit ''cooking'')), b_tone = None, b_length = None, b_scheduleFor = None\<rparr>"

definition number_body :: generate_body where
  "number_body =
     \<lparr>b_topic = Some (JNum 42), b_tone = None, b_length = None, b_scheduleFor = None\<rparr>"

text \<open>
  A lower-casing function for the places where a concrete one is needed: the one that
  lowers A to Z and keeps every other code unit. On the ASCII topics of the sample data,
  the only strings it is applied to below, it is \<^verbatim>\<open>toLowerCase\<close>.
\<close>

definition ascii_lower :: "jstring \<Rightarrow> jstring" where
  "ascii_lower s = map (\<lambda>c. if 65 \<le> c \<and> c \<le> 90 then c + 32 else c) s"

definition keyed_world :: world where
  "keyed_world =
     \<lparr>db_file = None,
      cfg_file = Some \<lparr>clientId = None, clientSecret = None, claudeApiKey = Some (lit ''key'')\<rparr>,
      trace = []\<rparr>"

definition number_text_body :: json where
  "number_text_body = JObj [(lit ''content'', JArr [JObj [(lit ''text'', JNum 5)]])]"

definition labelled_reply :: jstring where
  "labelled_reply =
     lit ''TITLE: Cats rule'' @ [10] @ lit ''script: Cats are great. '' @ [10]
     @ lit ''HASHTAGS: #cats #fyp''"

section \<open>Properties of the token manager\<close>

declare digits.simps [simp del]

lemma getValidToken_fresh:
  assumes "tokens (loadDB w) = Some tk" and "t_check < expiry_or_0 tk - 60000"
  shows "getValidToken t_check t_store reply w = (Inr (access_token tk), w)"
  using assms by (simp add: getValidToken_def Let_def)

lemma getValidToken_refreshed:
  assumes "tokens (loadDB w) = Some tk" and "\<not> t_check < expiry_or_0 tk - 60000"
    and "reply_error r = None"
  shows "getValidToken t_check t_store (Payload r) w =
     (Inr (r_access_token r),
      saveDB (loadDB w\<lparr>tokens := Some (tk\<lparr>access_token := r_access_token r,
          expiry := map_option (\<lambda>s. t_store + s * 1000) (r_expires_in r)\<rparr>)\<rparr>)
        (called (RefreshRequest (refresh_token tk) (clientId (loadConfig w))
           (clientSecret (loadConfig w))) w))"
  using assms by (simp add: getValidToken_def Let_def)

lemma getValidToken_refused:
  assumes "tokens (loadDB w) = Some tk" and "\<not> t_check < expiry_or_0 tk - 60000"
    and "reply_error r = Some e"
  shows "getValidToken t_check t_store (Payload r) w =
     (Inl (RefreshFailed e),
      called (RefreshRequest (refresh_token tk) (clientId (loadConfig w))
           (clientSecret (loadConfig w))) w)"
  using assms by (simp add: getValidToken_def Let_def)

lemma loadDB_saveDB [simp]: "loadDB (saveDB d w) = d"
  by (simp add: loadDB_def saveDB_def)

lemma loadDB_called [simp]: "loadDB (called ev w) = loadDB w"
  by (simp add: loadDB_def called_def)

lemma loadConfig_saveDB [simp]: "loadConfig (saveDB d w) = loadConfig w"
  by (simp add: loadConfig_def saveDB_def)

lemma loadConfig_called [simp]: "loadConfig (called ev w) = loadConfig w"
  by (simp add: loadConfig_def called_def)

text \<open>
  C1. While the clock reads less than the stored expiry minus 60000 ms, \<open>getValidToken\<close>
  returns the stored access token and leaves the world as it was: the trace gains no
  event, so the refresh endpoint is not asked and nothing is written. A second call in
  the same window therefore starts from the same world and returns the same token.
\<close>

theorem getValidToken_within_window:
  assumes "tokens (loadDB w) = Some tk" and "expiry tk = Some e"
    and "t1 < e - 60000" and "t2 < e - 60000"
  shows "getValidToken t1 s1 reply1 w = (Inr (access_token tk), w)
       \<and> getValidToken t2 s2 reply2 (snd (getValidToken t1 s1 reply1 w))
           = (Inr (access_token tk), w)
       \<and> trace (snd (getValidToken t1 s1 reply1 w)) = trace w"
proof -
  have fresh: "\<And>t. t < e - 60000 \<Longrightarrow> t < expiry_or_0 tk - 60000"
    using assms(2) by (simp add: expiry_or_0_def)
  have first: "getValidToken t1 s1 reply1 w = (Inr (access_token tk), w)"
    using assms(1) fresh [OF assms(3)] by (rule getValidToken_fresh)
  have second: "getValidToken t2 s2 reply2 w = (Inr (access_token tk), w)"
    using assms(1) fresh [OF assms(4)] by (rule getValidToken_fresh)
  show ?thesis by (simp add: first second)
qed

theorem getValidToken_within_window_witness:
  "tokens (loadDB sample_world) = Some sample_tokens \<and> expiry sample_tokens = Some 1050000
   \<and> getValidToken 900000 900001 (Rejected []) sample_world
       = (Inr (Some (lit ''A1'')), sample_world)
   \<and> getValidToken 989999 990000 NullBody
        (snd (getValidToken 900000 900001 (Rejected []) sample_world))
       = (Inr (Some (lit ''A1'')), sample_world)"
proof -
  have h1: "tokens (loadDB sample_world) = Some sample_tokens"
    by (simp add: sample_world_def sample_tokens_def loadDB_def)
  have h2: "expiry sample_tokens = Some 1050000"
    by (simp add: sample_world_def sample_tokens_def)
  have h3: "(900000::int) < 1050000 - 60000" and h4: "(989999::int) < 1050000 - 60000"
    by simp_all
  have "access_token sample_tokens = Some (lit ''A1'')"
    by (simp add: sample_world_def sample_tokens_def)
  with getValidToken_within_window [OF h1 h2 h3 h4, of 900001 "Rejected []" 990000 NullBody]
  show ?thesis using h1 h2 by (elim conjE) simp
qed

text \<open>
  C2, as the code has it. When the stored token is no longer fresh and the provider's
  reply carries no error and an \<^verbatim>\<open>expires_in\<close> of \<open>s\<close> seconds, \<open>getValidToken\<close>
  returns the new access token and persists a token record with the new access token,
  the expiry \<open>t_store + s * 1000\<close> and the refresh token it had. The new expiry is
  later than the old one provided the clock did not run backwards and \<open>s\<close> exceeds the
  60-second buffer.
\<close>

theorem getValidToken_refresh_success:
  assumes "tokens (loadDB w) = Some tk" and "\<not> t_check < expiry_or_0 tk - 60000"
    and "reply_error r = None" and "r_expires_in r = Some s"
  shows "fst (getValidToken t_check t_store (Payload r) w) = Inr (r_access_token r)
       \<and> tokens (loadDB (snd (getValidToken t_check t_store (Payload r) w)))
           = Some \<lparr>access_token = r_access_token r, refresh_token = refresh_token tk,
                   expiry = Some (t_store + s * 1000)\<rparr>
       \<and> (t_check \<le> t_store \<and> 60 < s \<longrightarrow> expiry_or_0 tk < t_store + s * 1000)"
proof -
  have "expiry_or_0 tk < t_store + s * 1000" if "t_check \<le> t_store" and "60 < s"
    using assms(2) that by simp
  then show ?thesis
    by (simp add: getValidToken_refreshed [OF assms(1-3)] assms(4))
qed

theorem getValidToken_refresh_success_witness:
  "fst (getValidToken 1000000 1000002 (Payload hour_reply) sample_world) = Inr (Some (lit ''A2''))
   \<and> tokens (loadDB (snd (getValidToken 1000000 1000002 (Payload hour_reply) sample_world)))
       = Some \<lparr>access_token = Some (lit ''A2''), refresh_token = Some (lit ''R1''),
               expiry = Some 4600002\<rparr>
   \<and> expiry_or_0 sample_tokens < 4600002"
proof -
  have h1: "tokens (loadDB sample_world) = Some sample_tokens"
    by (simp add: sample_world_def sample_tokens_def hour_reply_def loadDB_def)
  have h2: "\<not> (1000000::int) < expiry_or_0 sample_tokens - 60000"
    by (simp add: sample_world_def sample_tokens_def hour_reply_def expiry_or_0_def)
  have h3: "reply_error hour_reply = None"
    by (simp add: sample_world_def sample_tokens_def hour_reply_def reply_error_def)
  have h4: "r_expires_in hour_reply = Some 3600"
    by (simp add: sample_world_def sample_tokens_def hour_reply_def)
  show ?thesis
    using getValidToken_refresh_success [OF h1 h2 h3 h4, of 1000002]
    by (simp add: sample_world_def sample_tokens_def hour_reply_def)
qed

text \<open>
  The claim's "strictly greater" fails for a short-lived token: the stored token expires
  at 1050000, the refresh at 1000000 is answered with \<^verbatim>\<open>expires_in = 30\<close>, and the
  new expiry 1030000 is earlier than the old one.
\<close>

theorem getValidToken_refresh_expiry_counterexample:
  "fst (getValidToken 1000000 1000000 (Payload short_lived_reply) sample_world)
     = Inr (Some (lit ''A2''))
   \<and> map_option expiry (tokens (loadDB sample_world)) = Some (Some 1050000)
   \<and> map_option expiry
       (tokens (loadDB (snd (getValidToken 1000000 1000000 (Payload short_lived_reply) sample_world))))
     = Some (Some 1030000)"
  by (simp add: getValidToken_def sample_world_def sample_tokens_def short_lived_reply_def
      loadDB_def loadConfig_def expiry_or_0_def reply_error_def saveDB_def called_def Let_def)

text \<open>
  C3. When the stored token is no longer fresh and the provider's reply carries an error
  (a non-empty string), \<open>getValidToken\<close> throws \<open>RefreshFailed\<close> with that reason; the
  only new event of the trace is the refresh request, so no file is written and
  \<^verbatim>\<open>data.json\<close> is what it was.
\<close>

theorem getValidToken_refresh_error:
  assumes "tokens (loadDB w) = Some tk" and "\<not> t_check < expiry_or_0 tk - 60000"
    and "r_error r = Some e" and "e \<noteq> []"
  shows "fst (getValidToken t_check t_store (Payload r) w) = Inl (RefreshFailed e)
       \<and> db_file (snd (getValidToken t_check t_store (Payload r) w)) = db_file w
       \<and> cfg_file (snd (getValidToken t_check t_store (Payload r) w)) = cfg_file w
       \<and> trace (snd (getValidToken t_check t_store (Payload r) w))
           = trace w @ [RefreshRequest (refresh_token tk) (clientId (loadConfig w))
                          (clientSecret (loadConfig w))]"
proof -
  have "reply_error r = Some e"
    using assms(3,4) by (simp add: reply_error_def)
  from getValidToken_refused [OF assms(1,2) this] show ?thesis
    by (simp add: called_def)
qed

theorem getValidToken_refresh_error_witness:
  "fst (getValidToken 1000000 1000002 (Payload invalid_grant_reply) sample_world)
     = Inl (Error (lit ''Token refresh failed: invalid_grant''))
   \<and> db_file (snd (getValidToken 1000000 1000002 (Payload invalid_grant_reply) sample_world))
     = db_file sample_world
   \<and> trace (snd (getValidToken 1000000 1000002 (Payload invalid_grant_reply) sample_world))
     = [RefreshRequest (Some (lit ''R1'')) (Some (lit ''id'')) (Some (lit ''secret''))]"
proof -
  have h1: "tokens (loadDB sample_world) = Some sample_tokens"
    by (simp add: sample_world_def sample_tokens_def invalid_grant_reply_def loadDB_def)
  have h2: "\<not> (1000000::int) < expiry_or_0 sample_tokens - 60000"
    by (simp add: sample_world_def sample_tokens_def invalid_grant_reply_def expiry_or_0_def)
  have h3: "r_error invalid_grant_reply = Some (lit ''invalid_grant'')"
    by (simp add: sample_world_def sample_tokens_def invalid_grant_reply_def)
  have h4: "lit ''invalid_grant'' \<noteq> []"
    by simp
  show ?thesis
    using getValidToken_refresh_error [OF h1 h2 h3 h4, of 1000002]
    by (simp add: sample_world_def sample_tokens_def invalid_grant_reply_def RefreshFailed_def
        loadConfig_def)
qed

section \<open>Properties of the script generator\<close>

lemma pick_in_set:
  assumes "xs \<noteq> []"
  shows "pick u xs \<in> set xs"
proof -
  have u: "0 \<le> Rep_draw u" "Rep_draw u < 1"
    using Rep_draw [of u] by simp_all
  have len: "0 < real (length xs)"
    using assms by simp
  have "Rep_draw u * real (length xs) < real (length xs)"
    using u(2) len by simp
  then have "\<lfloor>Rep_draw u * real (length xs)\<rfloor> < int (length xs)"
    by (simp add: floor_less_iff)
  moreover have "0 \<le> \<lfloor>Rep_draw u * real (length xs)\<rfloor>"
    using u(1) by simp
  ultimately have "nat \<lfloor>Rep_draw u * real (length xs)\<rfloor> < length xs"
    by linarith
  then show ?thesis
    by (simp add: pick_def)
qed

lemma local_script_nonempty:
  "(\<exists>s. title (local_script lc topic' uh ut) = JStr s \<and> s \<noteq> [])
   \<and> hook (local_script lc topic' uh ut) \<noteq> []
   \<and> script (local_script lc topic' uh ut) \<noteq> []
   \<and> hashtags (local_script lc topic' uh ut) \<noteq> []"
proof -
  have t: "pick ut (titles tw) \<in> set (titles tw)" for tw
    by (rule pick_in_set) (simp add: titles_def)
  have h: "pick uh (hooks topic') \<in> set (hooks topic')"
    by (rule pick_in_set) (simp add: hooks_def)
  have "\<forall>x \<in> set (titles tw). x \<noteq> []" for tw
    by (simp add: titles_def)
  with t have t': "pick ut (titles tw) \<noteq> []" for tw
    by blast
  have "\<forall>x \<in> set (hooks topic'). x \<noteq> []"
    by (simp add: hooks_def)
  with h have h': "pick uh (hooks topic') \<noteq> []"
    by blast
  show ?thesis
    using t' h' by (simp add: local_script_def Let_def script_of_def)
qed

lemma localGenerate_string:
  "localGenerate lc (JStr s) tone' len uh ut = Inr (local_script lc s uh ut)"
  by (simp add: localGenerate_def)

text \<open>Every topic that is no string makes the local generator throw.\<close>

lemma localGenerate_not_string:
  assumes "\<And>s. topic' \<noteq> JStr s"
  shows "\<exists>e. localGenerate lc topic' tone' len uh ut = Inl e"
  using assms by (cases topic') (auto simp add: localGenerate_def)

lemma localGenerate_number:
  "localGenerate lc (JNum n) tone' len uh ut = Inl (Error (lit ''topic.split is not a function''))"
  by (simp add: localGenerate_def)

lemma generateScript_settles:
  "api \<noteq> ApiPending \<Longrightarrow> \<exists>r. fst (generateScript lc topic' tone' len api uh ut w) = Some r"
  by (cases api)
    (simp_all add: generateScript_def try_external_def Let_def split: sum.splits option.splits)

lemma generateScript_fallback:
  assumes "api \<noteq> ApiPending" and "\<And>g. try_external api topic' \<noteq> Some (Inr (Some g))"
  shows "fst (generateScript lc topic' tone' len api uh ut w)
       = Some (localGenerate lc topic' tone' len uh ut)"
proof -
  from assms(1) have "try_external api topic' \<noteq> None"
    by (cases api) (simp_all add: try_external_def)
  then obtain r where r: "try_external api topic' = Some r"
    by blast
  show ?thesis
  proof (cases r)
    case (Inl e)
    with r show ?thesis
      by (simp add: generateScript_def Let_def)
  next
    case (Inr o_g)
    with r assms(2) have "o_g = None"
      by (cases o_g) simp_all
    with r Inr show ?thesis
      by (simp add: generateScript_def Let_def)
  qed
qed

lemma read_result_no_text:
  assumes "\<And>s. response_text result = Inr (Some (JStr s)) \<Longrightarrow> s = []"
  shows "read_result result topic' \<noteq> Inr (Some g)"
  using assms
  by (auto simp add: read_result_def split: sum.splits option.splits json.splits if_splits)

lemma generateScript_external:
  assumes "truthy_str (claudeApiKey (loadConfig w))" and "prompt_builds topic' tone' len"
    and "response_text result = Inr (Some (JStr s))" and "s \<noteq> []"
  shows "fst (generateScript lc topic' tone' len (ApiBody result) uh ut w)
       = Some (Inr (parseGeneratedScript s topic'))"
  using assms by (simp add: generateScript_def try_external_def read_result_def Let_def)

lemma generateScript_string:
  assumes "api \<noteq> ApiPending"
  shows "\<exists>g. fst (generateScript lc (JStr t) tone' len api uh ut w) = Some (Inr g)"
  using assms
  by (cases api)
    (simp_all add: generateScript_def try_external_def localGenerate_string Let_def
      split: sum.splits option.splits)

text \<open>
  C7, as the code has it. For a topic that is a string, \<open>generateScript\<close> returns a
  script whenever the request to the generation API settles. When the request is
  rejected, when the body is no JSON, and when the parsed body has no non-empty string at
  \<^verbatim>\<open>content[0].text\<close> (reading it throws, it is absent, it is empty or it is no
  string), the result is the script of the local generator.
\<close>

theorem generateScript_never_fails:
  "(api \<noteq> ApiPending \<longrightarrow>
      (\<exists>g. fst (generateScript lc (JStr t) tone' len api uh ut w) = Some (Inr g)))
   \<and> (\<forall>msg. fst (generateScript lc (JStr t) tone' len (ApiRejected msg) uh ut w)
         = Some (Inr (local_script lc t uh ut)))
   \<and> fst (generateScript lc (JStr t) tone' len ApiUnparseable uh ut w)
         = Some (Inr (local_script lc t uh ut))
   \<and> (\<forall>result. (\<forall>s. response_text result = Inr (Some (JStr s)) \<longrightarrow> s = []) \<longrightarrow>
         fst (generateScript lc (JStr t) tone' len (ApiBody result) uh ut w)
           = Some (Inr (local_script lc t uh ut)))
   \<and> localGenerate lc (JStr t) tone' len uh ut = Inr (local_script lc t uh ut)"
proof (intro conjI allI impI)
  assume "api \<noteq> ApiPending"
  then show "\<exists>g. fst (generateScript lc (JStr t) tone' len api uh ut w) = Some (Inr g)"
    by (rule generateScript_string)
next
  fix msg
  have "fst (generateScript lc (JStr t) tone' len (ApiRejected msg) uh ut w)
         = Some (localGenerate lc (JStr t) tone' len uh ut)"
    by (rule generateScript_fallback) (simp_all add: try_external_def)
  then show "fst (generateScript lc (JStr t) tone' len (ApiRejected msg) uh ut w)
         = Some (Inr (local_script lc t uh ut))"
    by (simp add: localGenerate_string)
next
  have "response_text (JObj []) = Inr None"
    by (simp add: response_text_def opt_chain_def)
  then have "read_result (JObj []) (JStr t) \<noteq> Inr (Some g)" for g
    by (intro read_result_no_text) simp
  then have "fst (generateScript lc (JStr t) tone' len ApiUnparseable uh ut w)
         = Some (localGenerate lc (JStr t) tone' len uh ut)"
    by (intro generateScript_fallback) (simp_all add: try_external_def)
  then show "fst (generateScript lc (JStr t) tone' len ApiUnparseable uh ut w)
         = Some (Inr (local_script lc t uh ut))"
    by (simp add: localGenerate_string)
next
  fix result
  assume "\<forall>s. response_text result = Inr (Some (JStr s)) \<longrightarrow> s = []"
  then have "read_result result (JStr t) \<noteq> Inr (Some g)" for g
    by (intro read_result_no_text) simp
  then have "fst (generateScript lc (JStr t) tone' len (ApiBody result) uh ut w)
           = Some (localGenerate lc (JStr t) tone' len uh ut)"
    by (intro generateScript_fallback) (simp_all add: try_external_def)
  then show "fst (generateScript lc (JStr t) tone' len (ApiBody result) uh ut w)
           = Some (Inr (local_script lc t uh ut))"
    by (simp add: localGenerate_string)
next
  show "localGenerate lc (JStr t) tone' len uh ut = Inr (local_script lc t uh ut)"
    by (rule localGenerate_string)
qed

theorem generateScript_never_fails_witness:
  "truthy_str (claudeApiKey (loadConfig keyed_world))
   \<and> response_text number_text_body = Inr (Some (JNum 5))
   \<and> read_result number_text_body (JStr (lit ''cooking''))
       = Inl (Error (lit ''text.match is not a function''))
   \<and> fst (generateScript ascii_lower (JStr (lit ''cooking'')) JNull JNull
         (ApiBody number_text_body) low_draw low_draw keyed_world)
       = Some (Inr (local_script ascii_lower (lit ''cooking'') low_draw low_draw))
   \<and> response_text JNull = Inl (null_read ''content'')
   \<and> fst (generateScript ascii_lower (JStr (lit ''cooking'')) JNull JNull (ApiBody JNull)
         low_draw low_draw keyed_world)
       = Some (Inr (local_script ascii_lower (lit ''cooking'') low_draw low_draw))
   \<and> (\<exists>g. fst (generateScript ascii_lower (JStr (lit ''cooking'')) JNull JNull (ApiBody JNull)
         low_draw low_draw keyed_world) = Some (Inr g))"
proof -
  have k: "truthy_str (claudeApiKey (loadConfig keyed_world))"
    by (simp add: keyed_world_def loadConfig_def)
  have t1: "response_text number_text_body = Inr (Some (JNum 5))"
    by (simp add: number_text_body_def response_text_def opt_chain_def member_of_def)
  have t2: "response_text JNull = Inl (null_read ''content'')"
    by (simp add: response_text_def)
  have r: "read_result number_text_body (JStr (lit ''cooking''))
      = Inl (Error (lit ''text.match is not a function''))"
    by (simp add: read_result_def t1)
  have h1: "\<forall>s. response_text number_text_body = Inr (Some (JStr s)) \<longrightarrow> s = []"
    by (simp add: t1)
  have h2: "\<forall>s. response_text JNull = Inr (Some (JStr s)) \<longrightarrow> s = []"
    by (simp add: t2)
  have h3: "ApiBody JNull \<noteq> ApiPending"
    by simp
  note inst = generateScript_never_fails [of _ ascii_lower "lit ''cooking''" JNull JNull
      low_draw low_draw keyed_world]
  from inst have a: "fst (generateScript ascii_lower (JStr (lit ''cooking'')) JNull JNull
         (ApiBody number_text_body) low_draw low_draw keyed_world)
       = Some (Inr (local_script ascii_lower (lit ''cooking'') low_draw low_draw))"
    using h1 by blast
  from inst have b: "fst (generateScript ascii_lower (JStr (lit ''cooking'')) JNull JNull
         (ApiBody JNull) low_draw low_draw keyed_world)
       = Some (Inr (local_script ascii_lower (lit ''cooking'') low_draw low_draw))"
    using h2 by blast
  from inst [of "ApiBody JNull"] h3 have c: "\<exists>g. fst (generateScript ascii_lower
         (JStr (lit ''cooking'')) JNull JNull (ApiBody JNull) low_draw low_draw keyed_world)
       = Some (Inr g)"
    by blast
  from k t1 t2 r a b c show ?thesis by blast
qed

text \<open>
  A truthy topic that is no string passes the test of the route and makes
  \<^verbatim>\<open>topic.split\<close> throw in the local generator, outside the \<^verbatim>\<open>try\<close> block: the
  error leaves \<open>generateScript\<close> and the route answers 500. A request that never settles
  leaves \<open>generateScript\<close> without a result.
\<close>

theorem generateScript_fails_outward_counterexample:
  "fst (generateScript ascii_lower (JNum 42) (JStr (lit ''Engaging'')) (JNum 60) ApiUnparseable
        low_draw low_draw fresh_world)
     = Some (Inl (Error (lit ''topic.split is not a function'')))
   \<and> fst (generateScript ascii_lower (JNum 42) (JStr (lit ''Engaging'')) (JNum 60) ApiUnparseable
        low_draw low_draw keyed_world)
     = Some (Inl (Error (lit ''topic.split is not a function'')))
   \<and> fst (api_generate ascii_lower number_body 1700000000000 1700000000001 ApiUnparseable
        low_draw low_draw low_draw fresh_world)
     = Failed 500 (lit ''topic.split is not a function'')
   \<and> fst (generateScript ascii_lower (JStr (lit ''cooking'')) (JStr (lit ''Engaging'')) (JNum 60)
        ApiPending low_draw low_draw keyed_world)
     = None"
proof -
  note loc = localGenerate_number
  have a: "fst (generateScript ascii_lower (JNum 42) (JStr (lit ''Engaging'')) (JNum 60)
        ApiUnparseable low_draw low_draw fresh_world)
     = Some (Inl (Error (lit ''topic.split is not a function'')))"
    by (simp add: generateScript_def loadConfig_def fresh_world_def loc)
  have "read_result (JObj []) (JNum 42) = Inr None"
    by (simp add: read_result_def response_text_def opt_chain_def)
  then have b: "fst (generateScript ascii_lower (JNum 42) (JStr (lit ''Engaging'')) (JNum 60)
        ApiUnparseable low_draw low_draw keyed_world)
     = Some (Inl (Error (lit ''topic.split is not a function'')))"
    by (simp add: generateScript_def loadConfig_def keyed_world_def prompt_builds_def
        try_external_def loc)
  have c: "fst (api_generate ascii_lower number_body 1700000000000 1700000000001 ApiUnparseable
        low_draw low_draw low_draw fresh_world)
     = Failed 500 (lit ''topic.split is not a function'')"
    by (simp add: api_generate_def number_body_def generateScript_def loadConfig_def
        fresh_world_def loc)
  have d: "fst (generateScript ascii_lower (JStr (lit ''cooking'')) (JStr (lit ''Engaging''))
        (JNum 60) ApiPending low_draw low_draw keyed_world) = None"
    by (simp add: generateScript_def loadConfig_def keyed_world_def prompt_builds_def
        try_external_def)
  from a b c d show ?thesis by blast
qed

section \<open>Properties of the draft store\<close>

lemma loadDB_saveConfig [simp]: "loadDB (saveConfig c w) = loadDB w"
  by (simp add: loadDB_def saveConfig_def)

lemma loadDB_getValidToken:
  "videos (loadDB (snd (getValidToken t s reply w))) = videos (loadDB w)"
  by (simp add: getValidToken_def Let_def split: option.splits token_reply.splits)

lemma loadDB_generateScript [simp]:
  "loadDB (snd (generateScript lc topic' tone' len api uh ut w)) = loadDB w"
  by (simp add: generateScript_def Let_def split: sum.splits option.splits)

lemma modify_first_absent: "find p xs = None \<Longrightarrow> modify_first p f xs = xs"
  by (induction xs) (auto split: if_splits)

lemma length_modify_first [simp]: "length (modify_first p f xs) = length xs"
  by (induction xs) auto

lemma map_modify_first: "(\<And>x. g (f x) = g x) \<Longrightarrow> map g (modify_first p f xs) = map g xs"
  by (induction xs) auto

lemma videos_setup: "videos (loadDB (snd (api_setup body w))) = videos (loadDB w)"
  by (simp add: api_setup_def Let_def)

lemma videos_callback:
  "videos (loadDB (snd (auth_callback code err t reply chan w))) = videos (loadDB w)"
  by (simp add: auth_callback_def Let_def split: option.splits token_reply.splits sum.splits)

lemma videos_disconnect: "videos (loadDB (snd (auth_disconnect w))) = videos (loadDB w)"
  by (simp add: auth_disconnect_def Let_def)

lemma videos_delete:
  "videos (loadDB (snd (api_delete i w))) = filter (\<lambda>v. id_v v \<noteq> i) (videos (loadDB w))"
  by (simp add: api_delete_def Let_def)

lemma videos_channel:
  "videos (loadDB (snd (api_channel t s reply chan w))) = videos (loadDB w)"
proof (cases "getValidToken t s reply w")
  case (Pair res w1)
  with loadDB_getValidToken [of t s reply w] have "videos (loadDB w1) = videos (loadDB w)"
    by simp
  with Pair show ?thesis
    by (simp add: api_channel_def Let_def split: option.splits sum.splits)
qed

lemma videos_schedule:
  "\<exists>f. (\<forall>v. id_v (f v) = id_v v) \<and>
       videos (loadDB (snd (api_schedule i t s d reply w)))
         = modify_first (\<lambda>v. id_v v = i) f (videos (loadDB w))"
proof (cases "find (\<lambda>v. id_v v = i) (videos (loadDB w))")
  case None
  then have "videos (loadDB (snd (api_schedule i t s d reply w))) = videos (loadDB w)"
    by (simp add: api_schedule_def scheduleVideoPost_def NotFound_def)
  with None show ?thesis
    by (intro exI [of _ "\<lambda>v. v"]) (simp add: modify_first_absent)
next
  case (Some v)
  obtain res w1 where tok: "getValidToken t s reply w = (res, w1)"
    by (cases "getValidToken t s reply w")
  show ?thesis
  proof (cases res)
    case (Inl e)
    with Some tok show ?thesis
      by (intro exI [of _ "mark_error e"])
        (simp add: api_schedule_def scheduleVideoPost_def Let_def mark_error_def)
  next
    case (Inr token)
    with Some tok show ?thesis
      by (intro exI [of _ "mark_scheduled d"])
        (simp add: api_schedule_def scheduleVideoPost_def Let_def mark_scheduled_def)
  qed
qed

lemma api_generate_rejected:
  "\<not> truthy (b_topic body) \<Longrightarrow>
     api_generate lc body t_id t_created api uh ut ue w = (Failed 400 (lit ''Topic required''), w)"
  by (simp add: api_generate_def)

lemma api_generate_stores:
  assumes "fst (api_generate lc body t_id t_created api uh ut ue w) = Ok200"
  shows "\<exists>topic' g. b_topic body = Some topic' \<and>
       loadDB (snd (api_generate lc body t_id t_created api uh ut ue w))
         = (loadDB w)\<lparr>videos :=
              insert_draft (new_draft body topic' g t_id t_created ue) (videos (loadDB w))\<rparr>"
proof (cases "truthy (b_topic body)")
  case False
  with assms show ?thesis
    by (simp add: api_generate_rejected)
next
  case True
  then obtain topic' where tp: "b_topic body = Some topic'"
    by (cases "b_topic body") auto
  let ?gen = "generateScript lc topic'
      (case b_tone body of None \<Rightarrow> JStr (lit ''Engaging'') | Some t \<Rightarrow> t)
      (case b_length body of None \<Rightarrow> JNum 60 | Some l \<Rightarrow> l) api uh ut w"
  obtain res w1 where gen: "?gen = (res, w1)"
    by (cases ?gen)
  have db: "loadDB w1 = loadDB w"
    using loadDB_generateScript [of lc topic' _ _ api uh ut w] gen by (metis snd_conv)
  from assms True tp gen obtain g where "res = Some (Inr g)"
    by (auto simp add: api_generate_def Let_def split: option.splits sum.splits)
  with True tp gen db show ?thesis
    by (intro exI [of _ topic'] exI [of _ g]) (simp add: api_generate_def Let_def)
qed

lemma api_generate_keeps:
  assumes "fst (api_generate lc body t_id t_created api uh ut ue w) \<noteq> Ok200"
  shows "loadDB (snd (api_generate lc body t_id t_created api uh ut ue w)) = loadDB w"
proof (cases "truthy (b_topic body)")
  case False
  then show ?thesis
    by (simp add: api_generate_rejected)
next
  case True
  then obtain topic' where tp: "b_topic body = Some topic'"
    by (cases "b_topic body") auto
  let ?gen = "generateScript lc topic'
      (case b_tone body of None \<Rightarrow> JStr (lit ''Engaging'') | Some t \<Rightarrow> t)
      (case b_length body of None \<Rightarrow> JNum 60 | Some l \<Rightarrow> l) api uh ut w"
  obtain res w1 where gen: "?gen = (res, w1)"
    by (cases ?gen)
  have db: "loadDB w1 = loadDB w"
    using loadDB_generateScript [of lc topic' _ _ api uh ut w] gen by (metis snd_conv)
  from assms True tp gen db show ?thesis
    by (auto simp add: api_generate_def Let_def split: option.splits sum.splits)
qed

text \<open>A non-empty string as topic and a request that settles: the route answers 200.\<close>

lemma api_generate_string_ok:
  assumes "b_topic body = Some (JStr t)" and "t \<noteq> []" and "api \<noteq> ApiPending"
  shows "fst (api_generate lc body t_id t_created api uh ut ue w) = Ok200"
proof -
  let ?gen = "generateScript lc (JStr t)
      (case b_tone body of None \<Rightarrow> JStr (lit ''Engaging'') | Some t \<Rightarrow> t)
      (case b_length body of None \<Rightarrow> JNum 60 | Some l \<Rightarrow> l) api uh ut w"
  from generateScript_string [OF assms(3)] obtain g where "fst ?gen = Some (Inr g)"
    by blast
  then obtain w1 where "?gen = (Some (Inr g), w1)"
    by (cases ?gen) simp
  with assms(1,2) show ?thesis
    by (simp add: api_generate_def Let_def)
qed

lemma tokens_api_generate:
  "tokens (loadDB (snd (api_generate lc body t_id t_created api uh ut ue w))) = tokens (loadDB w)"
proof (cases "fst (api_generate lc body t_id t_created api uh ut ue w) = Ok200")
  case True
  from api_generate_stores [OF True] show ?thesis
    by auto
next
  case False
  from api_generate_keeps [OF False] show ?thesis
    by simp
qed

lemma insert_draft_take: "insert_draft v vs = take 50 (v # vs)"
  by (simp add: insert_draft_def Let_def)

lemma videos_generate:
  "length (videos (loadDB w)) \<le> 50 \<Longrightarrow>
     length (videos (loadDB (snd (api_generate lc body t_id t_created api uh ut ue w)))) \<le> 50"
proof (cases "fst (api_generate lc body t_id t_created api uh ut ue w) = Ok200")
  case True
  from api_generate_stores [OF True] show ?thesis
    by (auto simp add: insert_draft_take)
next
  case False
  assume "length (videos (loadDB w)) \<le> 50"
  with api_generate_keeps [OF False] show ?thesis
    by simp
qed

lemma handle_bounded:
  assumes "length (videos (loadDB w)) \<le> 50"
  shows "length (videos (loadDB (snd (handle lc r w)))) \<le> 50"
proof (cases r)
  case (Setup body)
  with assms show ?thesis by (simp add: videos_setup)
next
  case (Callback code err t reply chan)
  with assms show ?thesis by (simp add: videos_callback)
next
  case Disconnect
  with assms show ?thesis by (simp add: videos_disconnect)
next
  case (Generate body t_id t_created api uh ut ue)
  with videos_generate [OF assms] show ?thesis by simp
next
  case (Delete i)
  have "length (filter (\<lambda>v. id_v v \<noteq> i) (videos (loadDB w))) \<le> 50"
    using length_filter_le assms by (rule le_trans)
  with Delete show ?thesis by (simp add: videos_delete)
next
  case (Schedule i t s d reply)
  from videos_schedule [of i t s d reply w] assms Schedule show ?thesis by auto
next
  case (Channel t s reply chan)
  with assms show ?thesis by (simp add: videos_channel)
qed

lemma run_bounded:
  "length (videos (loadDB w)) \<le> 50 \<Longrightarrow> length (videos (loadDB (run lc rs w))) \<le> 50"
  by (induction rs arbitrary: w) (simp_all add: handle_bounded)

text \<open>
  C6. Starting from a store of at most 50 drafts (the empty store of a fresh installation
  in particular), the store holds at most 50 drafts after every list of requests. A
  \<^verbatim>\<open>/api/generate\<close> request whose topic is a non-empty string is answered with 200 once
  the generation request has settled. A request answered with 200 has put the new draft,
  whose id is the clock reading, in front of the stored ones and kept the first 50: the
  new draft is at position 0, and when the store was full exactly its last draft is
  dropped. A request not answered with 200 leaves the store as it was.
\<close>

theorem store_bounded:
  assumes "length (videos (loadDB w)) \<le> 50"
  shows "length (videos (loadDB (run lc rs w))) \<le> 50
       \<and> ((\<exists>t. b_topic body = Some (JStr t) \<and> t \<noteq> []) \<and> api \<noteq> ApiPending \<longrightarrow>
            fst (api_generate lc body t_id t_created api uh ut ue w) = Ok200)
       \<and> (fst (api_generate lc body t_id t_created api uh ut ue w) = Ok200 \<longrightarrow>
            (\<exists>video. id_v video = toString t_id \<and> status video = StatusDraft
               \<and> videos (loadDB (snd (api_generate lc body t_id t_created api uh ut ue w)))
                   = take 50 (video # videos (loadDB w))
               \<and> videos (loadDB (snd (api_generate lc body t_id t_created api uh ut ue w))) ! 0
                   = video
               \<and> (length (videos (loadDB w)) = 50 \<longrightarrow>
                    videos (loadDB (snd (api_generate lc body t_id t_created api uh ut ue w)))
                      = video # butlast (videos (loadDB w)))))
       \<and> (fst (api_generate lc body t_id t_created api uh ut ue w) \<noteq> Ok200 \<longrightarrow>
            videos (loadDB (snd (api_generate lc body t_id t_created api uh ut ue w)))
              = videos (loadDB w))"
proof (intro conjI impI)
  show "length (videos (loadDB (run lc rs w))) \<le> 50"
    using assms by (rule run_bounded)
next
  assume "(\<exists>t. b_topic body = Some (JStr t) \<and> t \<noteq> []) \<and> api \<noteq> ApiPending"
  then show "fst (api_generate lc body t_id t_created api uh ut ue w) = Ok200"
    using api_generate_string_ok by blast
next
  assume "fst (api_generate lc body t_id t_created api uh ut ue w) \<noteq> Ok200"
  from api_generate_keeps [OF this]
  show "videos (loadDB (snd (api_generate lc body t_id t_created api uh ut ue w)))
      = videos (loadDB w)"
    by simp
next
  assume "fst (api_generate lc body t_id t_created api uh ut ue w) = Ok200"
  from api_generate_stores [OF this]
  obtain topic' g where
    after: "videos (loadDB (snd (api_generate lc body t_id t_created api uh ut ue w)))
         = take 50 (new_draft body topic' g t_id t_created ue # videos (loadDB w))"
    by (auto simp add: insert_draft_take)
  let ?video = "new_draft body topic' g t_id t_created ue"
  have full: "take 50 (?video # videos (loadDB w)) = ?video # butlast (videos (loadDB w))"
    if "length (videos (loadDB w)) = 50"
    using that by (simp add: take_Cons' butlast_conv_take)
  have "id_v ?video = toString t_id" and "status ?video = StatusDraft"
    by (simp_all add: new_draft_def)
  with after full show "\<exists>video. id_v video = toString t_id \<and> status video = StatusDraft
               \<and> videos (loadDB (snd (api_generate lc body t_id t_created api uh ut ue w)))
                   = take 50 (video # videos (loadDB w))
               \<and> videos (loadDB (snd (api_generate lc body t_id t_created api uh ut ue w))) ! 0
                   = video
               \<and> (length (videos (loadDB w)) = 50 \<longrightarrow>
                    videos (loadDB (snd (api_generate lc body t_id t_created api uh ut ue w)))
                      = video # butlast (videos (loadDB w)))"
    by (intro exI [of _ ?video]) (simp add: take_Cons')
qed

theorem store_bounded_witness:
  "length (videos (loadDB full_world)) = 50
   \<and> b_topic cooking_body = Some (JStr (lit ''cooking''))
   \<and> length (videos (loadDB (run ascii_lower [Generate cooking_body 1700000000000 1700000000001
         ApiUnparseable low_draw low_draw low_draw, Delete (lit ''7'')] full_world))) \<le> 50
   \<and> fst (api_generate ascii_lower cooking_body 1700000000000 1700000000001
              ApiUnparseable low_draw low_draw low_draw full_world) = Ok200
   \<and> (\<exists>video. id_v video = lit ''1700000000000''
        \<and> videos (loadDB (snd (api_generate ascii_lower cooking_body 1700000000000 1700000000001
              ApiUnparseable low_draw low_draw low_draw full_world)))
            = video # butlast (videos (loadDB full_world)))"
proof -
  have h1: "length (videos (loadDB full_world)) = 50"
    by (simp add: full_world_def loadDB_def)
  then have h2: "length (videos (loadDB full_world)) \<le> 50"
    by simp
  have h3: "b_topic cooking_body = Some (JStr (lit ''cooking''))"
    by (simp add: cooking_body_def)
  then have h3': "\<exists>t. b_topic cooking_body = Some (JStr t) \<and> t \<noteq> []"
    by simp
  have h4: "toString 1700000000000 = lit ''1700000000000''"
    by (simp add: toString_def digits.simps)
  have h5: "ApiUnparseable \<noteq> ApiPending"
    by simp
  note inst = store_bounded [OF h2, where lc = ascii_lower and rs = "[Generate cooking_body
         1700000000000 1700000000001 ApiUnparseable low_draw low_draw low_draw, Delete (lit ''7'')]"
         and body = cooking_body and t_id = 1700000000000 and t_created = 1700000000001
         and api = ApiUnparseable and uh = low_draw and ut = low_draw and ue = low_draw]
  from inst have a: "length (videos (loadDB (run ascii_lower [Generate cooking_body 1700000000000
         1700000000001 ApiUnparseable low_draw low_draw low_draw, Delete (lit ''7'')] full_world))) \<le> 50"
    by (elim conjE)
  from inst h3' h5 have b: "fst (api_generate ascii_lower cooking_body 1700000000000 1700000000001
              ApiUnparseable low_draw low_draw low_draw full_world) = Ok200"
    by blast
  from inst b h1 h4 have c: "\<exists>video. id_v video = lit ''1700000000000''
        \<and> videos (loadDB (snd (api_generate ascii_lower cooking_body 1700000000000 1700000000001
              ApiUnparseable low_draw low_draw low_draw full_world)))
            = video # butlast (videos (loadDB full_world))"
    by (elim conjE) (simp only: simp_thms, blast)
  from h1 h3 a b c show ?thesis
    by (intro conjI)
qed

lemma digits_value: "foldl (\<lambda>a c. 10 * a + (c - 48)) 0 (digits n) = n"
proof (induction n rule: digits.induct)
  case (1 n)
  show ?case
  proof (cases "n < 10")
    case True
    then show ?thesis by (subst digits.simps) simp
  next
    case False
    with "1" show ?thesis by (subst digits.simps) simp
  qed
qed

lemma digits_inj: "digits m = digits n \<Longrightarrow> m = n"
  by (metis digits_value)

lemma digits_ge: "c \<in> set (digits n) \<Longrightarrow> 48 \<le> c"
proof (induction n rule: digits.induct)
  case (1 n)
  then show ?case
    by (subst (asm) (2) digits.simps) (auto split: if_splits)
qed

lemma digits_not_Nil: "digits n \<noteq> []"
  by (subst digits.simps) simp

lemma toString_inj: "toString a = toString b \<Longrightarrow> a = b"
proof -
  have minus: "45 # digits m \<noteq> digits n" for m n
  proof
    assume "45 # digits m = digits n"
    then have "45 \<in> set (digits n)" by (metis list.set_intros(1))
    then show False using digits_ge by fastforce
  qed
  assume "toString a = toString b"
  then show ?thesis
    using minus minus [symmetric]
    by (auto simp add: toString_def dest!: digits_inj split: if_splits)
qed

lemma ids_generate:
  assumes "fst (api_generate lc body t_id t_created api uh ut ue w) = Ok200"
  shows "map id_v (videos (loadDB (snd (api_generate lc body t_id t_created api uh ut ue w))))
       = take 50 (toString t_id # map id_v (videos (loadDB w)))"
proof -
  from api_generate_stores [OF assms]
  obtain topic' g where
    "videos (loadDB (snd (api_generate lc body t_id t_created api uh ut ue w)))
         = take 50 (new_draft body topic' g t_id t_created ue # videos (loadDB w))"
    by (auto simp add: insert_draft_take)
  then show ?thesis
    by (simp add: take_map new_draft_def)
qed

lemma created_at_string:
  assumes "b_topic body = Some (JStr t)" and "t \<noteq> []" and "api \<noteq> ApiPending"
  shows "created_at lc (Generate body t_id t_created api uh ut ue) w = [t_id]"
  using api_generate_string_ok [OF assms] by simp

lemma handle_ids:
  "set (map id_v (videos (loadDB (snd (handle lc r w)))))
     \<subseteq> set (map id_v (videos (loadDB w))) \<union> toString ` set (created_at lc r w)"
proof (cases r)
  case (Generate body t_id t_created api uh ut ue)
  show ?thesis
  proof (cases "fst (api_generate lc body t_id t_created api uh ut ue w) = Ok200")
    case True
    have "set (take 50 (toString t_id # map id_v (videos (loadDB w))))
        \<subseteq> set (toString t_id # map id_v (videos (loadDB w)))"
      by (rule set_take_subset)
    with True Generate show ?thesis
      by (simp only: handle.simps ids_generate [OF True] created_at.simps) auto
  next
    case False
    with Generate api_generate_keeps [OF False] show ?thesis by simp
  qed
next
  case (Schedule i t s d reply)
  from videos_schedule [of i t s d reply w] obtain f where
    "\<forall>v. id_v (f v) = id_v v"
    "videos (loadDB (snd (api_schedule i t s d reply w)))
       = modify_first (\<lambda>v. id_v v = i) f (videos (loadDB w))"
    by blast
  then have "map id_v (videos (loadDB (snd (api_schedule i t s d reply w))))
      = map id_v (videos (loadDB w))"
    by (simp add: map_modify_first)
  with Schedule show ?thesis by simp
qed (auto simp add: videos_setup videos_callback videos_disconnect videos_delete videos_channel)

lemma handle_distinct:
  assumes "distinct (map id_v (videos (loadDB w)))"
    and "\<forall>t \<in> set (created_at lc r w). toString t \<notin> set (map id_v (videos (loadDB w)))"
  shows "distinct (map id_v (videos (loadDB (snd (handle lc r w)))))"
proof (cases r)
  case (Generate body t_id t_created api uh ut ue)
  show ?thesis
  proof (cases "fst (api_generate lc body t_id t_created api uh ut ue w) = Ok200")
    case True
    with assms Generate have "distinct (toString t_id # map id_v (videos (loadDB w)))"
      by simp
    then have "distinct (take 50 (toString t_id # map id_v (videos (loadDB w))))"
      by (rule distinct_take)
    with True Generate show ?thesis
      by (simp only: handle.simps ids_generate [OF True])
  next
    case False
    with assms Generate api_generate_keeps [OF False] show ?thesis by simp
  qed
next
  case (Schedule i t s d reply)
  from videos_schedule [of i t s d reply w] obtain f where
    "\<forall>v. id_v (f v) = id_v v"
    "videos (loadDB (snd (api_schedule i t s d reply w)))
       = modify_first (\<lambda>v. id_v v = i) f (videos (loadDB w))"
    by blast
  then have "map id_v (videos (loadDB (snd (api_schedule i t s d reply w))))
      = map id_v (videos (loadDB w))"
    by (simp add: map_modify_first)
  with assms Schedule show ?thesis by simp
next
  case (Delete i)
  with assms show ?thesis by (simp add: videos_delete distinct_map_filter)
qed (use assms in \<open>simp_all add: videos_setup videos_callback videos_disconnect videos_channel\<close>)

lemma run_distinct:
  assumes "distinct (map id_v (videos (loadDB w)))"
    and "distinct (id_readings lc rs w)"
    and "\<forall>t \<in> set (id_readings lc rs w). toString t \<notin> set (map id_v (videos (loadDB w)))"
  shows "distinct (map id_v (videos (loadDB (run lc rs w))))"
  using assms
proof (induction rs arbitrary: w)
  case Nil
  then show ?case by simp
next
  case (Cons r rs)
  let ?w = "snd (handle lc r w)"
  have split: "id_readings lc (r # rs) w = created_at lc r w @ id_readings lc rs ?w"
    by simp
  have d1: "distinct (map id_v (videos (loadDB ?w)))"
    using Cons.prems(1,3) by (intro handle_distinct) (simp_all add: split)
  have d2: "distinct (id_readings lc rs ?w)"
    using Cons.prems(2) by (simp add: split)
  have d3: "\<forall>t \<in> set (id_readings lc rs ?w). toString t \<notin> set (map id_v (videos (loadDB ?w)))"
  proof
    fix t assume t: "t \<in> set (id_readings lc rs ?w)"
    show "toString t \<notin> set (map id_v (videos (loadDB ?w)))"
    proof
      assume "toString t \<in> set (map id_v (videos (loadDB ?w)))"
      with handle_ids [of lc r w]
      have "toString t \<in> set (map id_v (videos (loadDB w)))
          \<or> toString t \<in> toString ` set (created_at lc r w)"
        by blast
      then show False
      proof
        assume "toString t \<in> set (map id_v (videos (loadDB w)))"
        with Cons.prems(3) t show False by (simp add: split)
      next
        assume "toString t \<in> toString ` set (created_at lc r w)"
        then have "t \<in> set (created_at lc r w)" by (auto dest: toString_inj)
        with Cons.prems(2) t show False by (auto simp add: split)
      qed
    qed
  qed
  from Cons.IH [OF d1 d2 d3] show ?case by simp
qed

text \<open>
  C9, as the code has it. The id of a draft is the decimal clock reading at its creation.
  From a fresh installation, if the drafts stored by a list of requests were created at
  pairwise different clock readings, then the ids in the store are pairwise different.
\<close>

theorem ids_unique_for_distinct_readings:
  assumes "distinct (id_readings lc rs fresh_world)"
  shows "distinct (map id_v (videos (loadDB (run lc rs fresh_world))))"
  using assms by (intro run_distinct) (simp_all add: fresh_world_def loadDB_def)

theorem ids_unique_for_distinct_readings_witness:
  "id_readings ascii_lower
     [Generate cooking_body 1700000000000 1700000000000 ApiUnparseable low_draw low_draw low_draw,
      Generate cooking_body 1700000000001 1700000000001 ApiUnparseable low_draw low_draw low_draw]
     fresh_world = [1700000000000, 1700000000001]
   \<and> distinct (map id_v (videos (loadDB (run ascii_lower
       [Generate cooking_body 1700000000000 1700000000000 ApiUnparseable low_draw low_draw low_draw,
        Generate cooking_body 1700000000001 1700000000001 ApiUnparseable low_draw low_draw low_draw]
       fresh_world))))"
proof -
  have c: "created_at ascii_lower (Generate cooking_body a b ApiUnparseable u v x) w = [a]"
    for a b u v x w
    by (rule created_at_string [where t = "lit ''cooking''"]) (simp_all add: cooking_body_def)
  have r: "id_readings ascii_lower
     [Generate cooking_body 1700000000000 1700000000000 ApiUnparseable low_draw low_draw low_draw,
      Generate cooking_body 1700000000001 1700000000001 ApiUnparseable low_draw low_draw low_draw]
     fresh_world = [1700000000000, 1700000000001]"
    by (simp only: id_readings.simps c append.simps)
  then have h: "distinct (id_readings ascii_lower
     [Generate cooking_body 1700000000000 1700000000000 ApiUnparseable low_draw low_draw low_draw,
      Generate cooking_body 1700000000001 1700000000001 ApiUnparseable low_draw low_draw low_draw]
     fresh_world)"
    by simp
  from ids_unique_for_distinct_readings [OF h] r show ?thesis
    by (intro conjI)
qed

text \<open>
  Two drafts created in the same millisecond get the same id, and both are stored.
\<close>

theorem ids_same_millisecond_counterexample:
  "map id_v (videos (loadDB (run ascii_lower
       [Generate cooking_body 1700000000000 1700000000000 ApiUnparseable low_draw low_draw low_draw,
        Generate cooking_body 1700000000000 1700000000000 ApiUnparseable low_draw low_draw low_draw]
       fresh_world)))
     = [lit ''1700000000000'', lit ''1700000000000'']"
proof -
  have ok: "fst (api_generate ascii_lower cooking_body a b ApiUnparseable u v x w) = Ok200"
    for a b u v x w
    by (rule api_generate_string_ok [where t = "lit ''cooking''"]) (simp_all add: cooking_body_def)
  have s: "toString 1700000000000 = lit ''1700000000000''"
    by (simp add: toString_def digits.simps)
  have e: "videos (loadDB fresh_world) = []"
    by (simp add: fresh_world_def loadDB_def)
  show ?thesis
    by (simp add: ids_generate [OF ok] s e)
qed

section \<open>Properties of the scheduler\<close>

lemma find_holds: "find p xs = Some v \<Longrightarrow> p v"
  by (induction xs) (auto split: if_splits)

lemma find_modify_first:
  "find p xs = Some v \<Longrightarrow> p (f v) \<Longrightarrow> find p (modify_first p f xs) = Some (f v)"
  by (induction xs) (auto split: if_splits)

lemma id_v_mark_scheduled [simp]: "id_v (mark_scheduled d v) = id_v v"
  by (simp add: mark_scheduled_def)

lemma id_v_mark_error [simp]: "id_v (mark_error e v) = id_v v"
  by (simp add: mark_error_def)

lemma getValidToken_unauthenticated:
  "tokens (loadDB w) = None \<Longrightarrow> getValidToken t s reply w = (Inl NotAuthenticated, w)"
  by (simp add: getValidToken_def Let_def)

lemma scheduleVideoPost_token_ok:
  assumes "find (\<lambda>v. id_v v = i) (videos (loadDB w)) = Some v"
    and "getValidToken t s reply w = (Inr tok, w1)"
  shows "scheduleVideoPost i t s d reply w =
     (Inr (mark_scheduled d v),
      saveDB (loadDB w\<lparr>videos :=
        modify_first (\<lambda>v. id_v v = i) (mark_scheduled d) (videos (loadDB w))\<rparr>) w1)"
  using assms by (simp add: scheduleVideoPost_def Let_def)

lemma scheduleVideoPost_token_error:
  assumes "find (\<lambda>v. id_v v = i) (videos (loadDB w)) = Some v"
    and "getValidToken t s reply w = (Inl e, w1)"
  shows "scheduleVideoPost i t s d reply w =
     (Inl e,
      saveDB (loadDB w\<lparr>videos :=
        modify_first (\<lambda>v. id_v v = i) (mark_error e) (videos (loadDB w))\<rparr>) w1)"
  using assms by (simp add: scheduleVideoPost_def Let_def)

lemma scheduled_draft_persisted:
  assumes "find (\<lambda>v. id_v v = i) (videos (loadDB w)) = Some v"
    and "getValidToken t s reply w = (Inr tok, w1)"
  shows "find (\<lambda>v. id_v v = i) (videos (loadDB (snd (scheduleVideoPost i t s d reply w))))
           = Some (mark_scheduled d v)"
  using find_holds [OF assms(1)]
  by (simp add: scheduleVideoPost_token_ok [OF assms] find_modify_first [OF assms(1)])

lemma failed_draft_persisted:
  assumes "find (\<lambda>v. id_v v = i) (videos (loadDB w)) = Some v"
    and "getValidToken t s reply w = (Inl e, w1)"
  shows "find (\<lambda>v. id_v v = i) (videos (loadDB (snd (scheduleVideoPost i t s d reply w))))
           = Some (mark_error e v)"
  using find_holds [OF assms(1)]
  by (simp add: scheduleVideoPost_token_error [OF assms] find_modify_first [OF assms(1)])

text \<open>
  The scheduler writes back the document it loaded before the token was asked for: the
  token record in \<^verbatim>\<open>data.json\<close> after the call is the one from before it, also when
  \<open>getValidToken\<close> has just stored a refreshed one.
\<close>

lemma scheduleVideoPost_keeps_tokens:
  assumes "find (\<lambda>v. id_v v = i) (videos (loadDB w)) = Some v"
  shows "tokens (loadDB (snd (scheduleVideoPost i t s d reply w))) = tokens (loadDB w)"
proof (cases "getValidToken t s reply w")
  case (Pair res w1)
  with assms show ?thesis
    by (cases res) (simp_all add: scheduleVideoPost_def Let_def)
qed

lemma auth_callback_success:
  assumes "code \<noteq> []" and "reply_error r = None"
  shows "auth_callback (Some code) None t_now (Payload r) chan w =
     (Page (lit ''/?auth=success''),
      saveDB
        ((case chan of Inl e \<Rightarrow> (\<lambda>d. d) | Inr ch \<Rightarrow> (\<lambda>d. d\<lparr>channel := ch\<rparr>))
           (loadDB w\<lparr>tokens := Some
              \<lparr>access_token = r_access_token r, refresh_token = r_refresh_token r,
               expiry = map_option (\<lambda>s. t_now + s * 1000) (r_expires_in r)\<rparr>\<rparr>))
        (called (ChannelRequest (r_access_token r))
           (called (ExchangeRequest code (clientId (loadConfig w)) (clientSecret (loadConfig w))) w)))"
  using assms by (simp add: auth_callback_def Let_def split: sum.splits)

lemma auth_callback_success_db:
  assumes "code \<noteq> []" and "reply_error r = None"
  shows "videos (loadDB (snd (auth_callback (Some code) None t_now (Payload r) chan w)))
           = videos (loadDB w)
       \<and> tokens (loadDB (snd (auth_callback (Some code) None t_now (Payload r) chan w)))
           = Some \<lparr>access_token = r_access_token r, refresh_token = r_refresh_token r,
               expiry = map_option (\<lambda>s. t_now + s * 1000) (r_expires_in r)\<rparr>"
  by (simp add: auth_callback_success [OF assms] split: sum.splits)

text \<open>The ids and statuses in the store, in order, across the routes.\<close>

lemma find_present:
  "i \<in> id_v ` set vs \<Longrightarrow> \<exists>v. find (\<lambda>v. id_v v = i) vs = Some v"
  by (induction vs) auto

lemma map_modify_first_via:
  assumes "\<And>x. p x = q (g x)" and "\<And>x. g (f x) = h (g x)"
  shows "map g (modify_first p f xs) = modify_first q h (map g xs)"
  by (induction xs) (simp_all add: assms)

lemma pairs_generate:
  assumes "fst (api_generate lc body t_id t_created api uh ut ue w) = Ok200"
  shows "map (\<lambda>v. (id_v v, status v))
           (videos (loadDB (snd (api_generate lc body t_id t_created api uh ut ue w))))
       = take 50 ((toString t_id, StatusDraft) # map (\<lambda>v. (id_v v, status v)) (videos (loadDB w)))"
proof -
  from api_generate_stores [OF assms]
  obtain topic' g where
    "videos (loadDB (snd (api_generate lc body t_id t_created api uh ut ue w)))
         = take 50 (new_draft body topic' g t_id t_created ue # videos (loadDB w))"
    by (auto simp add: insert_draft_take)
  then show ?thesis
    by (simp add: take_map new_draft_def)
qed

lemma pairs_schedule_error:
  assumes "getValidToken t s reply w = (Inl e, w1)"
    and "i \<in> fst ` set (map (\<lambda>v. (id_v v, status v)) (videos (loadDB w)))"
  shows "fst (scheduleVideoPost i t s d reply w) = Inl e
       \<and> map (\<lambda>v. (id_v v, status v)) (videos (loadDB (snd (scheduleVideoPost i t s d reply w))))
         = modify_first (\<lambda>q. fst q = i) (\<lambda>q. (fst q, StatusError))
             (map (\<lambda>v. (id_v v, status v)) (videos (loadDB w)))"
proof -
  from assms(2) have "i \<in> id_v ` set (videos (loadDB w))"
    by (auto simp add: image_iff)
  then obtain v where v: "find (\<lambda>v. id_v v = i) (videos (loadDB w)) = Some v"
    using find_present by blast
  show ?thesis
    by (simp add: scheduleVideoPost_token_error [OF v assms(1)] mark_error_def
        map_modify_first_via [where q = "\<lambda>q. fst q = i" and h = "\<lambda>q. (fst q, StatusError)"])
qed

lemma pairs_schedule_ok:
  assumes "getValidToken t s reply w = (Inr tok, w1)"
    and "i \<in> fst ` set (map (\<lambda>v. (id_v v, status v)) (videos (loadDB w)))"
  shows "map (\<lambda>v. (id_v v, status v)) (videos (loadDB (snd (scheduleVideoPost i t s d reply w))))
         = modify_first (\<lambda>q. fst q = i) (\<lambda>q. (fst q, StatusScheduled))
             (map (\<lambda>v. (id_v v, status v)) (videos (loadDB w)))"
proof -
  from assms(2) have "i \<in> id_v ` set (videos (loadDB w))"
    by (auto simp add: image_iff)
  then obtain v where v: "find (\<lambda>v. id_v v = i) (videos (loadDB w)) = Some v"
    using find_present by blast
  show ?thesis
    by (simp add: scheduleVideoPost_token_ok [OF v assms(1)] mark_scheduled_def
        map_modify_first_via [where q = "\<lambda>q. fst q = i" and h = "\<lambda>q. (fst q, StatusScheduled)"])
qed

text \<open>A draft whose id no other draft of the store has is the one its id resolves to.\<close>

lemma find_unique_id:
  assumes "v \<in> set vs" and "distinct (map id_v vs)"
  shows "find (\<lambda>x. id_v x = id_v v) vs = Some v"
  using assms by (induction vs) (auto simp add: image_iff)

text \<open>
  C4, as the code has it. Let the id \<open>i\<close> resolve to the draft \<open>v\<close>: \<open>v\<close> is the first
  draft of the store with that id. If token acquisition fails because there is no token
  record, or because the refresh is answered with an error, then \<open>scheduleVideoPost\<close>
  re-raises that failure, and the persisted draft has status \<open>error\<close> and the failure's
  message, which is not empty. After a successful code exchange on \<^verbatim>\<open>/auth/callback\<close>,
  scheduling the same id returns and persists the draft with status \<open>scheduled\<close>
  whenever the token acquisition of that call succeeds, and it succeeds, with the new access
  token, while the new token is more than 60 seconds from its expiry.
\<close>

theorem schedule_unauthenticated_then_retry:
  assumes found: "find (\<lambda>v. id_v v = i) (videos (loadDB w)) = Some v"
    and cause: "(tokens (loadDB w) = None \<and> e = NotAuthenticated) \<or>
       (\<exists>tk r reason. tokens (loadDB w) = Some tk \<and> \<not> t_a < expiry_or_0 tk - 60000
          \<and> reply_a = Payload r \<and> r_error r = Some reason \<and> reason \<noteq> []
          \<and> e = RefreshFailed reason)"
    and auth: "code \<noteq> []" "reply_error r_b = None"
  shows "fst (scheduleVideoPost i t_a s_a d_a reply_a w) = Inl e
     \<and> find (\<lambda>v. id_v v = i) (videos (loadDB (snd (scheduleVideoPost i t_a s_a d_a reply_a w))))
         = Some (v\<lparr>status := StatusError, error := Some (message e)\<rparr>)
     \<and> message e \<noteq> []
     \<and> (\<forall>tok. fst (getValidToken t_b s_b reply_b
            (snd (auth_callback (Some code) None t_auth (Payload r_b) chan
               (snd (scheduleVideoPost i t_a s_a d_a reply_a w))))) = Inr tok \<longrightarrow>
          fst (scheduleVideoPost i t_b s_b d_b reply_b
            (snd (auth_callback (Some code) None t_auth (Payload r_b) chan
               (snd (scheduleVideoPost i t_a s_a d_a reply_a w)))))
            = Inr (mark_scheduled d_b (v\<lparr>status := StatusError, error := Some (message e)\<rparr>))
        \<and> find (\<lambda>v. id_v v = i) (videos (loadDB (snd (scheduleVideoPost i t_b s_b d_b reply_b
            (snd (auth_callback (Some code) None t_auth (Payload r_b) chan
               (snd (scheduleVideoPost i t_a s_a d_a reply_a w))))))))
            = Some (mark_scheduled d_b (v\<lparr>status := StatusError, error := Some (message e)\<rparr>))
        \<and> status (mark_scheduled d_b (v\<lparr>status := StatusError, error := Some (message e)\<rparr>))
            = StatusScheduled)
     \<and> (\<forall>s. r_expires_in r_b = Some s \<and> t_b < t_auth + s * 1000 - 60000 \<longrightarrow>
          fst (getValidToken t_b s_b reply_b
            (snd (auth_callback (Some code) None t_auth (Payload r_b) chan
               (snd (scheduleVideoPost i t_a s_a d_a reply_a w))))) = Inr (r_access_token r_b))"
proof -
  let ?w1 = "snd (scheduleVideoPost i t_a s_a d_a reply_a w)"
  let ?w2 = "snd (auth_callback (Some code) None t_auth (Payload r_b) chan ?w1)"
  let ?v1 = "v\<lparr>status := StatusError, error := Some (message e)\<rparr>"
  obtain wt where tok: "getValidToken t_a s_a reply_a w = (Inl e, wt)" and msg: "message e \<noteq> []"
  proof -
    from cause show ?thesis
    proof (elim disjE conjE exE)
      assume "tokens (loadDB w) = None" and "e = NotAuthenticated"
      then show ?thesis
        using that [of w] by (simp add: getValidToken_unauthenticated NotAuthenticated_def)
    next
      fix tk r reason
      assume "tokens (loadDB w) = Some tk" and "\<not> t_a < expiry_or_0 tk - 60000"
        and "reply_a = Payload r" and "r_error r = Some reason" and "reason \<noteq> []"
        and "e = RefreshFailed reason"
      moreover from this have "reply_error r = Some reason"
        by (simp add: reply_error_def)
      ultimately show ?thesis
        using that by (simp add: getValidToken_refused RefreshFailed_def)
    qed
  qed
  have first: "fst (scheduleVideoPost i t_a s_a d_a reply_a w) = Inl e"
    by (simp add: scheduleVideoPost_token_error [OF found tok])
  have stored: "find (\<lambda>v. id_v v = i) (videos (loadDB ?w1)) = Some ?v1"
    using failed_draft_persisted [OF found tok, of d_a] by (simp add: mark_error_def)
  have db2: "videos (loadDB ?w2) = videos (loadDB ?w1)"
    and tk2: "tokens (loadDB ?w2) = Some \<lparr>access_token = r_access_token r_b,
        refresh_token = r_refresh_token r_b,
        expiry = map_option (\<lambda>s. t_auth + s * 1000) (r_expires_in r_b)\<rparr>"
    using auth_callback_success_db [OF auth(1,2), of t_auth chan ?w1] by simp_all
  have found2: "find (\<lambda>v. id_v v = i) (videos (loadDB ?w2)) = Some ?v1"
    by (simp add: db2 stored)
  have retry: "fst (scheduleVideoPost i t_b s_b d_b reply_b ?w2) = Inr (mark_scheduled d_b ?v1)
        \<and> find (\<lambda>v. id_v v = i) (videos (loadDB (snd (scheduleVideoPost i t_b s_b d_b reply_b ?w2))))
            = Some (mark_scheduled d_b ?v1)
        \<and> status (mark_scheduled d_b ?v1) = StatusScheduled"
    if "fst (getValidToken t_b s_b reply_b ?w2) = Inr tok'" for tok'
  proof -
    from that obtain w3 where tok2: "getValidToken t_b s_b reply_b ?w2 = (Inr tok', w3)"
      by (cases "getValidToken t_b s_b reply_b ?w2") simp
    have "fst (scheduleVideoPost i t_b s_b d_b reply_b ?w2) = Inr (mark_scheduled d_b ?v1)"
      by (simp add: scheduleVideoPost_token_ok [OF found2 tok2])
    moreover have "find (\<lambda>v. id_v v = i)
         (videos (loadDB (snd (scheduleVideoPost i t_b s_b d_b reply_b ?w2))))
        = Some (mark_scheduled d_b ?v1)"
      by (rule scheduled_draft_persisted [OF found2 tok2])
    moreover have "status (mark_scheduled d_b ?v1) = StatusScheduled"
      by (simp add: mark_scheduled_def)
    ultimately show ?thesis by blast
  qed
  have fresh: "fst (getValidToken t_b s_b reply_b ?w2) = Inr (r_access_token r_b)"
    if "r_expires_in r_b = Some s \<and> t_b < t_auth + s * 1000 - 60000" for s
    using getValidToken_fresh [OF tk2, of t_b s_b reply_b] that by (simp add: expiry_or_0_def)
  from first stored msg retry fresh show ?thesis by blast
qed

theorem schedule_unauthenticated_then_retry_witness:
  "(find (\<lambda>v. id_v v = lit ''1700000000000'') (videos (loadDB draft_world)) = Some sample_video
   \<and> tokens (loadDB draft_world) = None
   \<and> fst (scheduleVideoPost (lit ''1700000000000'') 1000 1001 1002 NullBody draft_world)
       = Inl (Error (lit ''Not authenticated''))
   \<and> map_option (\<lambda>v. (status v, error v))
       (find (\<lambda>v. id_v v = lit ''1700000000000'')
         (videos (loadDB (snd (scheduleVideoPost (lit ''1700000000000'') 1000 1001 1002 NullBody
            draft_world)))))
       = Some (StatusError, Some (lit ''Not authenticated''))
   \<and> map_option status
       (find (\<lambda>v. id_v v = lit ''1700000000000'')
         (videos (loadDB (snd (scheduleVideoPost (lit ''1700000000000'') 3000 3001 3002 NullBody
            (snd (auth_callback (Some (lit ''code'')) None 2000 (Payload exchange_reply) (Inr None)
               (snd (scheduleVideoPost (lit ''1700000000000'') 1000 1001 1002 NullBody
                  draft_world)))))))))
       = Some StatusScheduled)
   \<and> (find (\<lambda>v. id_v v = lit ''1700000000000'') (videos (loadDB ready_world)) = Some sample_video
   \<and> tokens (loadDB ready_world) = Some sample_tokens
   \<and> \<not> 1000000 < expiry_or_0 sample_tokens - 60000
   \<and> fst (scheduleVideoPost (lit ''1700000000000'') 1000000 1000001 1000002
         (Payload invalid_grant_reply) ready_world)
       = Inl (Error (lit ''Token refresh failed: invalid_grant''))
   \<and> map_option (\<lambda>v. (status v, error v))
       (find (\<lambda>v. id_v v = lit ''1700000000000'')
         (videos (loadDB (snd (scheduleVideoPost (lit ''1700000000000'') 1000000 1000001 1000002
            (Payload invalid_grant_reply) ready_world)))))
       = Some (StatusError, Some (lit ''Token refresh failed: invalid_grant''))
   \<and> map_option status
       (find (\<lambda>v. id_v v = lit ''1700000000000'')
         (videos (loadDB (snd (scheduleVideoPost (lit ''1700000000000'') 3000000 3000001 3000002 NullBody
            (snd (auth_callback (Some (lit ''code'')) None 2000000 (Payload exchange_reply) (Inr None)
               (snd (scheduleVideoPost (lit ''1700000000000'') 1000000 1000001 1000002
                  (Payload invalid_grant_reply) ready_world)))))))))
       = Some StatusScheduled)"
proof -
  have h3: "lit ''code'' \<noteq> []" by simp
  have h4: "reply_error exchange_reply = None"
    by (simp add: exchange_reply_def reply_error_def)
  have h5: "r_expires_in exchange_reply = Some 3600"
    by (simp add: exchange_reply_def)
  have signed_out: "find (\<lambda>v. id_v v = lit ''1700000000000'') (videos (loadDB draft_world)) = Some sample_video
   \<and> tokens (loadDB draft_world) = None
   \<and> fst (scheduleVideoPost (lit ''1700000000000'') 1000 1001 1002 NullBody draft_world)
       = Inl (Error (lit ''Not authenticated''))
   \<and> map_option (\<lambda>v. (status v, error v))
       (find (\<lambda>v. id_v v = lit ''1700000000000'')
         (videos (loadDB (snd (scheduleVideoPost (lit ''1700000000000'') 1000 1001 1002 NullBody
            draft_world)))))
       = Some (StatusError, Some (lit ''Not authenticated''))
   \<and> map_option status
       (find (\<lambda>v. id_v v = lit ''1700000000000'')
         (videos (loadDB (snd (scheduleVideoPost (lit ''1700000000000'') 3000 3001 3002 NullBody
            (snd (auth_callback (Some (lit ''code'')) None 2000 (Payload exchange_reply) (Inr None)
               (snd (scheduleVideoPost (lit ''1700000000000'') 1000 1001 1002 NullBody
                  draft_world)))))))))
       = Some StatusScheduled"
  proof -
    let ?w1 = "snd (scheduleVideoPost (lit ''1700000000000'') 1000 1001 1002 NullBody draft_world)"
    let ?w2 = "snd (auth_callback (Some (lit ''code'')) None 2000 (Payload exchange_reply)
        (Inr None) ?w1)"
    have h1: "find (\<lambda>v. id_v v = lit ''1700000000000'') (videos (loadDB draft_world)) = Some sample_video"
      by (simp add: draft_world_def sample_video_def loadDB_def)
    have h7: "tokens (loadDB draft_world) = None"
      by (simp add: draft_world_def loadDB_def)
    have h2: "(tokens (loadDB draft_world) = None \<and> NotAuthenticated = NotAuthenticated) \<or>
         (\<exists>tk r reason. tokens (loadDB draft_world) = Some tk \<and> \<not> 1000 < expiry_or_0 tk - 60000
            \<and> NullBody = Payload r \<and> r_error r = Some reason \<and> reason \<noteq> []
            \<and> NotAuthenticated = RefreshFailed reason)"
      using h7 by simp
    have h6: "r_expires_in exchange_reply = Some 3600 \<and> (3000::int) < 2000 + 3600 * 1000 - 60000"
      using h5 by simp
    note inst = schedule_unauthenticated_then_retry [OF h1 h2 h3 h4,
            where s_a = 1001 and d_a = 1002 and chan = "Inr None" and s_b = 3001 and d_b = 3002
              and reply_b = NullBody and t_b = 3000 and t_auth = 2000]
    from inst have a: "fst (scheduleVideoPost (lit ''1700000000000'') 1000 1001 1002 NullBody draft_world)
         = Inl NotAuthenticated
       \<and> find (\<lambda>v. id_v v = lit ''1700000000000'') (videos (loadDB ?w1))
         = Some (sample_video\<lparr>status := StatusError, error := Some (message NotAuthenticated)\<rparr>)"
      by (elim conjE) (intro conjI)
    from inst h6 have tok: "fst (getValidToken 3000 3001 NullBody ?w2)
         = Inr (r_access_token exchange_reply)"
      by (elim conjE) blast
    from inst tok have b: "find (\<lambda>v. id_v v = lit ''1700000000000'')
         (videos (loadDB (snd (scheduleVideoPost (lit ''1700000000000'') 3000 3001 3002 NullBody ?w2))))
       = Some (mark_scheduled 3002
           (sample_video\<lparr>status := StatusError, error := Some (message NotAuthenticated)\<rparr>))"
      by (elim conjE) blast
    from a b h1 h7 show ?thesis
      by (simp add: NotAuthenticated_def mark_scheduled_def)
  qed
  have refused: "find (\<lambda>v. id_v v = lit ''1700000000000'') (videos (loadDB ready_world)) = Some sample_video
   \<and> tokens (loadDB ready_world) = Some sample_tokens
   \<and> \<not> 1000000 < expiry_or_0 sample_tokens - 60000
   \<and> fst (scheduleVideoPost (lit ''1700000000000'') 1000000 1000001 1000002
         (Payload invalid_grant_reply) ready_world)
       = Inl (Error (lit ''Token refresh failed: invalid_grant''))
   \<and> map_option (\<lambda>v. (status v, error v))
       (find (\<lambda>v. id_v v = lit ''1700000000000'')
         (videos (loadDB (snd (scheduleVideoPost (lit ''1700000000000'') 1000000 1000001 1000002
            (Payload invalid_grant_reply) ready_world)))))
       = Some (StatusError, Some (lit ''Token refresh failed: invalid_grant''))
   \<and> map_option status
       (find (\<lambda>v. id_v v = lit ''1700000000000'')
         (videos (loadDB (snd (scheduleVideoPost (lit ''1700000000000'') 3000000 3000001 3000002 NullBody
            (snd (auth_callback (Some (lit ''code'')) None 2000000 (Payload exchange_reply) (Inr None)
               (snd (scheduleVideoPost (lit ''1700000000000'') 1000000 1000001 1000002
                  (Payload invalid_grant_reply) ready_world)))))))))
       = Some StatusScheduled"
  proof -
    let ?w1 = "snd (scheduleVideoPost (lit ''1700000000000'') 1000000 1000001 1000002
        (Payload invalid_grant_reply) ready_world)"
    let ?w2 = "snd (auth_callback (Some (lit ''code'')) None 2000000 (Payload exchange_reply)
        (Inr None) ?w1)"
    have h1: "find (\<lambda>v. id_v v = lit ''1700000000000'') (videos (loadDB ready_world)) = Some sample_video"
      by (simp add: ready_world_def sample_video_def loadDB_def)
    have tk: "tokens (loadDB ready_world) = Some sample_tokens"
      by (simp add: ready_world_def loadDB_def)
    have stale: "\<not> 1000000 < expiry_or_0 sample_tokens - 60000"
      by (simp add: sample_tokens_def expiry_or_0_def)
    have h2: "(tokens (loadDB ready_world) = None
          \<and> RefreshFailed (lit ''invalid_grant'') = NotAuthenticated) \<or>
         (\<exists>tk r reason. tokens (loadDB ready_world) = Some tk \<and> \<not> 1000000 < expiry_or_0 tk - 60000
            \<and> Payload invalid_grant_reply = Payload r \<and> r_error r = Some reason \<and> reason \<noteq> []
            \<and> RefreshFailed (lit ''invalid_grant'') = RefreshFailed reason)"
      using tk stale by (intro disjI2 exI [of _ sample_tokens] exI [of _ invalid_grant_reply]
          exI [of _ "lit ''invalid_grant''"]) (simp add: invalid_grant_reply_def)
    have h6: "r_expires_in exchange_reply = Some 3600
        \<and> (3000000::int) < 2000000 + 3600 * 1000 - 60000"
      using h5 by simp
    note inst = schedule_unauthenticated_then_retry [OF h1 h2 h3 h4,
            where s_a = 1000001 and d_a = 1000002 and chan = "Inr None" and s_b = 3000001
              and d_b = 3000002 and reply_b = NullBody and t_b = 3000000 and t_auth = 2000000]
    from inst have a: "fst (scheduleVideoPost (lit ''1700000000000'') 1000000 1000001 1000002
           (Payload invalid_grant_reply) ready_world)
         = Inl (RefreshFailed (lit ''invalid_grant''))
       \<and> find (\<lambda>v. id_v v = lit ''1700000000000'') (videos (loadDB ?w1))
         = Some (sample_video\<lparr>status := StatusError,
              error := Some (message (RefreshFailed (lit ''invalid_grant'')))\<rparr>)"
      by (elim conjE) (intro conjI)
    from inst h6 have tok: "fst (getValidToken 3000000 3000001 NullBody ?w2)
         = Inr (r_access_token exchange_reply)"
      by (elim conjE) blast
    from inst tok have b: "find (\<lambda>v. id_v v = lit ''1700000000000'')
         (videos (loadDB (snd (scheduleVideoPost (lit ''1700000000000'') 3000000 3000001 3000002
            NullBody ?w2))))
       = Some (mark_scheduled 3000002
           (sample_video\<lparr>status := StatusError,
              error := Some (message (RefreshFailed (lit ''invalid_grant'')))\<rparr>))"
      by (elim conjE) blast
    from a b h1 tk stale show ?thesis
      by (simp add: RefreshFailed_def mark_scheduled_def)
  qed
  from signed_out refused show ?thesis by (rule conjI)
qed

text \<open>
  Two requests served in the same millisecond store two drafts with the same id.
  Scheduling that id while signed out sets the first of them to \<open>error\<close>; the second one,
  present in the store, stays a \<open>draft\<close>. And a retry after a successful code exchange
  ends in \<open>error\<close> again when the new token has expired by then and the refresh is
  refused.
\<close>

theorem schedule_same_id_counterexample:
  "map (\<lambda>v. (id_v v, status v)) (videos (loadDB (run ascii_lower
       [Generate cooking_body 1700000000000 1700000000000 ApiUnparseable low_draw low_draw low_draw,
        Generate cooking_body 1700000000000 1700000000000 ApiUnparseable low_draw low_draw low_draw]
       fresh_world)))
     = [(lit ''1700000000000'', StatusDraft), (lit ''1700000000000'', StatusDraft)]
   \<and> fst (scheduleVideoPost (lit ''1700000000000'') 1700000001000 1700000001001 1700000001002
       NullBody (run ascii_lower
       [Generate cooking_body 1700000000000 1700000000000 ApiUnparseable low_draw low_draw low_draw,
        Generate cooking_body 1700000000000 1700000000000 ApiUnparseable low_draw low_draw low_draw]
       fresh_world))
     = Inl (Error (lit ''Not authenticated''))
   \<and> map (\<lambda>v. (id_v v, status v)) (videos (loadDB (snd
       (scheduleVideoPost (lit ''1700000000000'') 1700000001000 1700000001001 1700000001002
       NullBody (run ascii_lower
       [Generate cooking_body 1700000000000 1700000000000 ApiUnparseable low_draw low_draw low_draw,
        Generate cooking_body 1700000000000 1700000000000 ApiUnparseable low_draw low_draw low_draw]
       fresh_world)))))
     = [(lit ''1700000000000'', StatusError), (lit ''1700000000000'', StatusDraft)]
   \<and> fst (scheduleVideoPost (lit ''1700000000000'') 9000000 9000001 9000002
       (Payload invalid_grant_reply)
       (snd (auth_callback (Some (lit ''code'')) None 2000 (Payload exchange_reply) (Inr None)
         (snd (scheduleVideoPost (lit ''1700000000000'') 1000 1001 1002 NullBody draft_world)))))
     = Inl (Error (lit ''Token refresh failed: invalid_grant''))
   \<and> map (\<lambda>v. (id_v v, status v)) (videos (loadDB (snd
       (scheduleVideoPost (lit ''1700000000000'') 9000000 9000001 9000002
       (Payload invalid_grant_reply)
       (snd (auth_callback (Some (lit ''code'')) None 2000 (Payload exchange_reply) (Inr None)
         (snd (scheduleVideoPost (lit ''1700000000000'') 1000 1001 1002 NullBody draft_world))))))))
     = [(lit ''1700000000000'', StatusError)]"
proof -
  let ?W = "run ascii_lower
       [Generate cooking_body 1700000000000 1700000000000 ApiUnparseable low_draw low_draw low_draw,
        Generate cooking_body 1700000000000 1700000000000 ApiUnparseable low_draw low_draw low_draw]
       fresh_world"
  have ok: "fst (api_generate ascii_lower cooking_body a b ApiUnparseable u v x w) = Ok200"
    for a b u v x w
    by (rule api_generate_string_ok [where t = "lit ''cooking''"]) (simp_all add: cooking_body_def)
  have s: "toString 1700000000000 = lit ''1700000000000''"
    by (simp add: toString_def digits.simps)
  have e: "videos (loadDB fresh_world) = []" "tokens (loadDB fresh_world) = None"
    by (simp_all add: fresh_world_def loadDB_def)
  have p: "map (\<lambda>v. (id_v v, status v)) (videos (loadDB ?W))
      = [(lit ''1700000000000'', StatusDraft), (lit ''1700000000000'', StatusDraft)]"
    by (simp add: pairs_generate [OF ok] s e)
  have "tokens (loadDB ?W) = None"
    by (simp add: tokens_api_generate e)
  then have t: "getValidToken 1700000001000 1700000001001 NullBody ?W = (Inl NotAuthenticated, ?W)"
    by (rule getValidToken_unauthenticated)
  have m: "lit ''1700000000000''
      \<in> fst ` set (map (\<lambda>v. (id_v v, status v)) (videos (loadDB ?W)))"
    by (simp only: p) simp
  from pairs_schedule_error [OF t m, of 1700000001002]
  have q: "fst (scheduleVideoPost (lit ''1700000000000'') 1700000001000 1700000001001
        1700000001002 NullBody ?W) = Inl (Error (lit ''Not authenticated''))
     \<and> map (\<lambda>v. (id_v v, status v)) (videos (loadDB (snd
         (scheduleVideoPost (lit ''1700000000000'') 1700000001000 1700000001001 1700000001002
            NullBody ?W))))
       = [(lit ''1700000000000'', StatusError), (lit ''1700000000000'', StatusDraft)]"
    by (simp only: p) (simp add: NotAuthenticated_def)
  let ?w1 = "snd (scheduleVideoPost (lit ''1700000000000'') 1000 1001 1002 NullBody draft_world)"
  let ?w2 = "snd (auth_callback (Some (lit ''code'')) None 2000 (Payload exchange_reply)
        (Inr None) ?w1)"
  have d: "map (\<lambda>v. (id_v v, status v)) (videos (loadDB draft_world))
      = [(lit ''1700000000000'', StatusDraft)]" "tokens (loadDB draft_world) = None"
    by (simp_all add: draft_world_def sample_video_def loadDB_def)
  have t1: "getValidToken 1000 1001 NullBody draft_world = (Inl NotAuthenticated, draft_world)"
    using d(2) by (rule getValidToken_unauthenticated)
  have m1: "lit ''1700000000000''
      \<in> fst ` set (map (\<lambda>v. (id_v v, status v)) (videos (loadDB draft_world)))"
    by (simp only: d) simp
  from pairs_schedule_error [OF t1 m1, of 1002]
  have p1: "map (\<lambda>v. (id_v v, status v)) (videos (loadDB ?w1))
      = [(lit ''1700000000000'', StatusError)]"
    by (simp only: d) simp
  have cb: "videos (loadDB ?w2) = videos (loadDB ?w1)
       \<and> tokens (loadDB ?w2)
           = Some \<lparr>access_token = r_access_token exchange_reply,
               refresh_token = r_refresh_token exchange_reply,
               expiry = map_option (\<lambda>s. 2000 + s * 1000) (r_expires_in exchange_reply)\<rparr>"
    by (rule auth_callback_success_db) (simp_all add: exchange_reply_def reply_error_def)
  then have "videos (loadDB ?w2) = videos (loadDB ?w1)"
    by (elim conjE)
  then have p2: "map (\<lambda>v. (id_v v, status v)) (videos (loadDB ?w2))
      = [(lit ''1700000000000'', StatusError)]"
    by (simp only: p1)
  from cb obtain wr where t2: "getValidToken 9000000 9000001 (Payload invalid_grant_reply) ?w2
      = (Inl (RefreshFailed (lit ''invalid_grant'')), wr)"
    by (simp add: getValidToken_refused [where e = "lit ''invalid_grant''"] exchange_reply_def
        invalid_grant_reply_def reply_error_def expiry_or_0_def)
  have m2: "lit ''1700000000000''
      \<in> fst ` set (map (\<lambda>v. (id_v v, status v)) (videos (loadDB ?w2)))"
    by (simp only: p2) simp
  from pairs_schedule_error [OF t2 m2, of 9000002]
  have r: "fst (scheduleVideoPost (lit ''1700000000000'') 9000000 9000001 9000002
       (Payload invalid_grant_reply) ?w2) = Inl (Error (lit ''Token refresh failed: invalid_grant''))
     \<and> map (\<lambda>v. (id_v v, status v)) (videos (loadDB (snd
       (scheduleVideoPost (lit ''1700000000000'') 9000000 9000001 9000002
       (Payload invalid_grant_reply) ?w2))))
     = [(lit ''1700000000000'', StatusError)]"
    by (simp only: p2) (simp add: RefreshFailed_def)
  from p q r show ?thesis
    by (intro conjI) (elim conjE, assumption)+
qed

lemma trim_empty_iff: "trim t = [] \<longleftrightarrow> list_all is_space t"
proof
  assume "trim t = []"
  then have "\<forall>c \<in> set (dropWhile is_space t). is_space c"
    by (simp add: trim_def dropWhile_eq_Nil_conv)
  then have "dropWhile is_space t = []"
    using hd_dropWhile [of is_space t] by (cases "dropWhile is_space t") auto
  then show "list_all is_space t"
    by (simp add: dropWhile_eq_Nil_conv list_all_iff)
next
  assume "list_all is_space t"
  then show "trim t = []"
    by (auto simp add: trim_def list_all_iff dropWhile_eq_Nil_conv dest: set_dropWhileD)
qed

lemma split_on_not_Nil: "split_on sep s \<noteq> []"
  by (induction s) (auto split: list.splits)

lemma split_on_no_sep: "t \<in> set (split_on sep s) \<Longrightarrow> sep \<notin> set t"
proof (induction s arbitrary: t)
  case Nil
  then show ?case by simp
next
  case (Cons c cs)
  show ?case
  proof (cases "c = sep")
    case True
    with Cons show ?thesis by auto
  next
    case False
    obtain w ws where ws: "split_on sep cs = w # ws"
      using split_on_not_Nil [of sep cs] by (cases "split_on sep cs") auto
    with Cons.prems False have "t = c # w \<or> t \<in> set ws"
      by simp
    then show ?thesis
    proof
      assume "t = c # w"
      moreover have "sep \<notin> set w" using Cons.IH [of w] ws by simp
      ultimately show ?thesis using False by simp
    next
      assume "t \<in> set ws"
      then show ?thesis using Cons.IH [of t] ws by simp
    qed
  qed
qed

lemma set_trim: "set (trim t) \<subseteq> set t"
proof -
  have "set (trim t) \<subseteq> set (dropWhile is_space t)"
    unfolding trim_def using set_dropWhileD [of _ is_space "rev (dropWhile is_space t)"] by auto
  also have "\<dots> \<subseteq> set t"
    using set_dropWhileD [of _ is_space t] by auto
  finally show ?thesis .
qed

lemma trim_edges:
  assumes "trim t \<noteq> []"
  shows "\<not> is_space (hd (trim t)) \<and> \<not> is_space (last (trim t))"
proof -
  let ?a = "dropWhile is_space t"
  let ?r = "dropWhile is_space (rev ?a)"
  have r: "?r \<noteq> []" using assms by (simp add: trim_def)
  then have a: "?a \<noteq> []" by (metis dropWhile.simps(1) rev.simps(1))
  have "rev ?a = takeWhile is_space (rev ?a) @ ?r" by simp
  then have "?a = rev ?r @ rev (takeWhile is_space (rev ?a))"
    by (metis rev_append rev_rev_ident)
  then have "hd ?a = hd (rev ?r)"
    using r by (metis hd_append2 rev_is_Nil_conv)
  moreover have "\<not> is_space (hd ?a)" using a by (rule hd_dropWhile)
  moreover have "\<not> is_space (hd ?r)" using r by (rule hd_dropWhile)
  ultimately show ?thesis
    using r by (simp add: trim_def last_rev)
qed

lemma trim_trim: "trim (trim t) = trim t"
proof (cases "trim t = []")
  case True
  moreover have "trim [] = []" by (simp add: trim_def)
  ultimately show ?thesis by simp
next
  case False
  from trim_edges [OF False] have h: "\<not> is_space (hd (trim t))" and l: "\<not> is_space (last (trim t))"
    by simp_all
  have "dropWhile is_space (trim t) = trim t"
    using False h by (simp add: dropWhile_eq_self_iff)
  moreover have "dropWhile is_space (rev (trim t)) = rev (trim t)"
    using False l by (simp add: dropWhile_eq_self_iff hd_rev)
  ultimately show ?thesis
    by (simp add: trim_def [of "trim t"])
qed

lemma tags_clean:
  assumes "t \<in> set (tags (youtubeMetadata_of v))"
  shows "t \<noteq> [] \<and> 35 \<notin> set t \<and> trim t = t"
proof -
  from assms obtain p where p: "p \<in> set (split_on 35 (hashtags v))" "trim p \<noteq> []" "t = trim p"
    by (auto simp add: youtubeMetadata_of_def)
  have "35 \<notin> set p" using p(1) by (rule split_on_no_sep)
  with set_trim [of p] have "35 \<notin> set (trim p)" by auto
  with p show ?thesis by (simp add: trim_trim)
qed

text \<open>
  C5. When scheduling succeeds, the persisted draft's metadata is a function of the
  draft's fields alone: the description is the script, a blank line, the hashtags, a
  blank line and \<^verbatim>\<open>#Shorts\<close>; the tags are the pieces of the hashtags between \<^verbatim>\<open>#\<close>
  signs, without those that are empty or all white space, each trimmed; the category is
  \<^verbatim>\<open>22\<close> and the visibility \<^verbatim>\<open>public\<close>. No tag is empty, contains \<^verbatim>\<open>#\<close> or
  has white space at either end.
\<close>

theorem scheduled_metadata:
  assumes "find (\<lambda>v. id_v v = i) (videos (loadDB w)) = Some v"
    and "fst (getValidToken t s reply w) = Inr tok"
  shows "map_option youtubeMetadata
           (find (\<lambda>v. id_v v = i) (videos (loadDB (snd (scheduleVideoPost i t s d reply w)))))
         = Some (Some
            \<lparr>m_title = title v,
             description = script v @ [10, 10] @ hashtags v @ [10, 10] @ lit ''#Shorts'',
             tags = map trim (filter (\<lambda>t. \<not> list_all is_space t) (split_on 35 (hashtags v))),
             categoryId = lit ''22'',
             privacyStatus = lit ''public''\<rparr>)
       \<and> (\<forall>t \<in> set (map trim (filter (\<lambda>t. \<not> list_all is_space t) (split_on 35 (hashtags v)))).
            t \<noteq> [] \<and> 35 \<notin> set t \<and> trim t = t)"
proof -
  obtain w1 where tok: "getValidToken t s reply w = (Inr tok, w1)"
    using assms(2) by (cases "getValidToken t s reply w") simp
  have md: "youtubeMetadata_of v =
            \<lparr>m_title = title v,
             description = script v @ [10, 10] @ hashtags v @ [10, 10] @ lit ''#Shorts'',
             tags = map trim (filter (\<lambda>t. \<not> list_all is_space t) (split_on 35 (hashtags v))),
             categoryId = lit ''22'',
             privacyStatus = lit ''public''\<rparr>"
    by (simp add: youtubeMetadata_of_def trim_empty_iff)
  have "\<forall>t \<in> set (tags (youtubeMetadata_of v)). t \<noteq> [] \<and> 35 \<notin> set t \<and> trim t = t"
    using tags_clean by blast
  then have clean: "\<forall>t \<in> set (map trim (filter (\<lambda>t. \<not> list_all is_space t) (split_on 35 (hashtags v)))).
            t \<noteq> [] \<and> 35 \<notin> set t \<and> trim t = t"
    by (simp only: md metadata.simps)
  have "map_option youtubeMetadata
           (find (\<lambda>v. id_v v = i) (videos (loadDB (snd (scheduleVideoPost i t s d reply w)))))
         = Some (Some (youtubeMetadata_of v))"
    by (simp add: scheduled_draft_persisted [OF assms(1) tok] mark_scheduled_def)
  with md clean show ?thesis by simp
qed

theorem scheduled_metadata_witness:
  "find (\<lambda>v. id_v v = lit ''1700000000000'') (videos (loadDB ready_world)) = Some sample_video
   \<and> fst (getValidToken 900000 900001 NullBody ready_world) = Inr (Some (lit ''A1''))
   \<and> hashtags sample_video = lit ''#cooking #shorts #fyp''
   \<and> map_option youtubeMetadata
       (find (\<lambda>v. id_v v = lit ''1700000000000'')
          (videos (loadDB (snd (scheduleVideoPost (lit ''1700000000000'') 900000 900001 900002
             NullBody ready_world)))))
     = Some (Some
         \<lparr>m_title = JStr (lit ''The Truth About cooking''),
          description = lit ''Cook every day.'' @ [10, 10] @ lit ''#cooking #shorts #fyp''
             @ [10, 10] @ lit ''#Shorts'',
          tags = [lit ''cooking'', lit ''shorts'', lit ''fyp''],
          categoryId = lit ''22'',
          privacyStatus = lit ''public''\<rparr>)"
proof -
  have h1: "find (\<lambda>v. id_v v = lit ''1700000000000'') (videos (loadDB ready_world)) = Some sample_video"
    by (simp add: ready_world_def sample_video_def sample_tokens_def loadDB_def)
  have h2: "fst (getValidToken 900000 900001 NullBody ready_world) = Inr (Some (lit ''A1''))"
    by (simp add: getValidToken_def ready_world_def sample_video_def sample_tokens_def loadDB_def expiry_or_0_def Let_def)
  have tags: "map trim (filter (\<lambda>t. \<not> list_all is_space t) (split_on 35 (lit ''#cooking #shorts #fyp'')))
      = [lit ''cooking'', lit ''shorts'', lit ''fyp'']"
    by (simp add: trim_def is_space_def)
  show ?thesis
    using scheduled_metadata [OF h1 h2, of 900002] h1 h2 tags
    by (simp add: ready_world_def sample_video_def sample_tokens_def)
qed

text \<open>
  C10, as the code has it. \<open>scheduleVideoPost\<close> never reads the status of the draft the
  id resolves to, which is the first draft of the store with that id. Whatever that draft's
  status was, a call whose token acquisition succeeds returns and persists it with status
  \<open>scheduled\<close>, the new \<open>scheduledAt\<close> and freshly computed metadata, and a call whose
  token acquisition fails re-raises the error and persists the draft with status
  \<open>error\<close>.
\<close>

theorem schedule_ignores_status:
  assumes "find (\<lambda>v. id_v v = i) (videos (loadDB w)) = Some v"
  shows "(\<forall>tok w1. getValidToken t s reply w = (Inr tok, w1) \<longrightarrow>
            fst (scheduleVideoPost i t s d reply w)
              = Inr (v\<lparr>status := StatusScheduled, scheduledAt := Some d,
                       youtubeMetadata := Some (youtubeMetadata_of v)\<rparr>)
          \<and> find (\<lambda>v. id_v v = i) (videos (loadDB (snd (scheduleVideoPost i t s d reply w))))
              = Some (v\<lparr>status := StatusScheduled, scheduledAt := Some d,
                        youtubeMetadata := Some (youtubeMetadata_of v)\<rparr>))
       \<and> (\<forall>e w1. getValidToken t s reply w = (Inl e, w1) \<longrightarrow>
            fst (scheduleVideoPost i t s d reply w) = Inl e
          \<and> find (\<lambda>v. id_v v = i) (videos (loadDB (snd (scheduleVideoPost i t s d reply w))))
              = Some (v\<lparr>status := StatusError, error := Some (message e)\<rparr>))"
proof (intro conjI allI impI)
  fix tok w1 assume tok: "getValidToken t s reply w = (Inr tok, w1)"
  show "fst (scheduleVideoPost i t s d reply w)
      = Inr (v\<lparr>status := StatusScheduled, scheduledAt := Some d,
               youtubeMetadata := Some (youtubeMetadata_of v)\<rparr>)"
    by (simp add: scheduleVideoPost_token_ok [OF assms tok] mark_scheduled_def)
  show "find (\<lambda>v. id_v v = i) (videos (loadDB (snd (scheduleVideoPost i t s d reply w))))
      = Some (v\<lparr>status := StatusScheduled, scheduledAt := Some d,
                youtubeMetadata := Some (youtubeMetadata_of v)\<rparr>)"
    using scheduled_draft_persisted [OF assms tok, of d] by (simp add: mark_scheduled_def)
next
  fix e w1 assume tok: "getValidToken t s reply w = (Inl e, w1)"
  show "fst (scheduleVideoPost i t s d reply w) = Inl e"
    by (simp add: scheduleVideoPost_token_error [OF assms tok])
  show "find (\<lambda>v. id_v v = i) (videos (loadDB (snd (scheduleVideoPost i t s d reply w))))
      = Some (v\<lparr>status := StatusError, error := Some (message e)\<rparr>)"
    using failed_draft_persisted [OF assms tok, of d] by (simp add: mark_error_def)
qed

theorem schedule_ignores_status_witness:
  "find (\<lambda>v. id_v v = lit ''1700000000000'') (videos (loadDB signed_out_world)) = Some scheduled_video
   \<and> find (\<lambda>v. id_v v = lit ''1700000000000'') (videos (loadDB rescheduling_world)) = Some scheduled_video
   \<and> status scheduled_video = StatusScheduled \<and> scheduledAt scheduled_video = Some 5000
   \<and> youtubeMetadata scheduled_video = Some stale_metadata
   \<and> getValidToken 900000 900001 NullBody signed_out_world = (Inl NotAuthenticated, signed_out_world)
   \<and> map_option (\<lambda>v. (status v, error v))
       (find (\<lambda>v. id_v v = lit ''1700000000000'')
          (videos (loadDB (snd (scheduleVideoPost (lit ''1700000000000'') 900000 900001 900002
             NullBody signed_out_world)))))
     = Some (StatusError, Some (lit ''Not authenticated''))
   \<and> getValidToken 900000 900001 NullBody rescheduling_world
       = (Inr (Some (lit ''A1'')), rescheduling_world)
   \<and> map_option (\<lambda>v. (status v, scheduledAt v, youtubeMetadata v))
       (find (\<lambda>v. id_v v = lit ''1700000000000'')
          (videos (loadDB (snd (scheduleVideoPost (lit ''1700000000000'') 900000 900001 900002
             NullBody rescheduling_world)))))
     = Some (StatusScheduled, Some 900002, Some (youtubeMetadata_of scheduled_video))"
proof -
  have h1: "find (\<lambda>v. id_v v = lit ''1700000000000'') (videos (loadDB signed_out_world)) = Some scheduled_video"
    by (simp add: signed_out_world_def rescheduling_world_def scheduled_video_def sample_video_def sample_tokens_def stale_metadata_def loadDB_def)
  have h2: "find (\<lambda>v. id_v v = lit ''1700000000000'') (videos (loadDB rescheduling_world)) = Some scheduled_video"
    by (simp add: signed_out_world_def rescheduling_world_def scheduled_video_def sample_video_def sample_tokens_def stale_metadata_def loadDB_def)
  have t1: "getValidToken 900000 900001 NullBody signed_out_world = (Inl NotAuthenticated, signed_out_world)"
    by (simp add: getValidToken_def signed_out_world_def rescheduling_world_def scheduled_video_def sample_video_def sample_tokens_def stale_metadata_def loadDB_def Let_def)
  have t2: "getValidToken 900000 900001 NullBody rescheduling_world
       = (Inr (Some (lit ''A1'')), rescheduling_world)"
    by (simp add: getValidToken_def signed_out_world_def rescheduling_world_def scheduled_video_def sample_video_def sample_tokens_def stale_metadata_def loadDB_def expiry_or_0_def Let_def)
  have s: "status scheduled_video = StatusScheduled \<and> scheduledAt scheduled_video = Some 5000
     \<and> youtubeMetadata scheduled_video = Some stale_metadata"
    by (simp add: scheduled_video_def)
  show ?thesis
    using schedule_ignores_status [OF h1, of 900000 900001 NullBody 900002]
      schedule_ignores_status [OF h2, of 900000 900001 NullBody 900002] h1 h2 t1 t2 s
    by (simp add: NotAuthenticated_def)
qed

text \<open>
  Of two drafts with the same id, stored by two requests served in the same millisecond,
  only the first is changed: the second one stays a \<open>draft\<close> when a call with succeeding
  token acquisition schedules that id, and again when a later call fails.
\<close>

theorem schedule_second_draft_counterexample:
  "map (\<lambda>v. (id_v v, status v)) (videos (loadDB (snd
     (scheduleVideoPost (lit ''1700000000000'') 3000 3001 3002 NullBody
       (run ascii_lower
         [Generate cooking_body 1700000000000 1700000000000 ApiUnparseable low_draw low_draw low_draw,
          Generate cooking_body 1700000000000 1700000000000 ApiUnparseable low_draw low_draw low_draw,
          Callback (Some (lit ''code'')) None 2000 (Payload exchange_reply) (Inr None)]
         fresh_world)))))
     = [(lit ''1700000000000'', StatusScheduled), (lit ''1700000000000'', StatusDraft)]
   \<and> map (\<lambda>v. (id_v v, status v)) (videos (loadDB (snd
     (scheduleVideoPost (lit ''1700000000000'') 9000000 9000001 9000002 (Payload invalid_grant_reply)
       (snd (scheduleVideoPost (lit ''1700000000000'') 3000 3001 3002 NullBody
         (run ascii_lower
           [Generate cooking_body 1700000000000 1700000000000 ApiUnparseable low_draw low_draw low_draw,
            Generate cooking_body 1700000000000 1700000000000 ApiUnparseable low_draw low_draw low_draw,
            Callback (Some (lit ''code'')) None 2000 (Payload exchange_reply) (Inr None)]
           fresh_world)))))))
     = [(lit ''1700000000000'', StatusError), (lit ''1700000000000'', StatusDraft)]"
proof -
  let ?G = "Generate cooking_body 1700000000000 1700000000000 ApiUnparseable low_draw low_draw low_draw"
  let ?W = "run ascii_lower [?G, ?G] fresh_world"
  let ?W2 = "run ascii_lower
      [?G, ?G, Callback (Some (lit ''code'')) None 2000 (Payload exchange_reply) (Inr None)]
      fresh_world"
  let ?W3 = "snd (scheduleVideoPost (lit ''1700000000000'') 3000 3001 3002 NullBody ?W2)"
  let ?tk = "\<lparr>access_token = r_access_token exchange_reply,
               refresh_token = r_refresh_token exchange_reply,
               expiry = map_option (\<lambda>s. 2000 + s * 1000) (r_expires_in exchange_reply)\<rparr>"
  have ok: "fst (api_generate ascii_lower cooking_body a b ApiUnparseable u v x w) = Ok200"
    for a b u v x w
    by (rule api_generate_string_ok [where t = "lit ''cooking''"]) (simp_all add: cooking_body_def)
  have s: "toString 1700000000000 = lit ''1700000000000''"
    by (simp add: toString_def digits.simps)
  have e: "videos (loadDB fresh_world) = []"
    by (simp add: fresh_world_def loadDB_def)
  have p: "map (\<lambda>v. (id_v v, status v)) (videos (loadDB ?W))
      = [(lit ''1700000000000'', StatusDraft), (lit ''1700000000000'', StatusDraft)]"
    by (simp add: pairs_generate [OF ok] s e)
  have w2: "?W2 = snd (auth_callback (Some (lit ''code'')) None 2000 (Payload exchange_reply)
      (Inr None) ?W)"
    by simp
  have cb: "videos (loadDB ?W2) = videos (loadDB ?W) \<and> tokens (loadDB ?W2) = Some ?tk"
    unfolding w2
    by (rule auth_callback_success_db) (simp_all add: exchange_reply_def reply_error_def)
  then have "videos (loadDB ?W2) = videos (loadDB ?W)"
    by (elim conjE)
  then have p2: "map (\<lambda>v. (id_v v, status v)) (videos (loadDB ?W2))
      = [(lit ''1700000000000'', StatusDraft), (lit ''1700000000000'', StatusDraft)]"
    by (simp only: p)
  from cb have tk: "tokens (loadDB ?W2) = Some ?tk"
    by (elim conjE)
  have t2: "getValidToken 3000 3001 NullBody ?W2 = (Inr (access_token ?tk), ?W2)"
    using tk by (rule getValidToken_fresh) (simp add: exchange_reply_def expiry_or_0_def)
  have m2: "lit ''1700000000000''
      \<in> fst ` set (map (\<lambda>v. (id_v v, status v)) (videos (loadDB ?W2)))"
    by (simp only: p2) simp
  from pairs_schedule_ok [OF t2 m2, of 3002]
  have p3: "map (\<lambda>v. (id_v v, status v)) (videos (loadDB ?W3))
      = [(lit ''1700000000000'', StatusScheduled), (lit ''1700000000000'', StatusDraft)]"
    by (simp only: p2) simp
  from m2 have "lit ''1700000000000'' \<in> id_v ` set (videos (loadDB ?W2))"
    by (auto simp add: image_iff)
  then obtain v where "find (\<lambda>v. id_v v = lit ''1700000000000'') (videos (loadDB ?W2)) = Some v"
    using find_present by blast
  then have "tokens (loadDB ?W3) = tokens (loadDB ?W2)"
    by (rule scheduleVideoPost_keeps_tokens)
  with tk have tk3: "tokens (loadDB ?W3) = Some ?tk"
    by simp
  obtain wr where t3: "getValidToken 9000000 9000001 (Payload invalid_grant_reply) ?W3
      = (Inl (RefreshFailed (lit ''invalid_grant'')), wr)"
    using getValidToken_refused [OF tk3, where e = "lit ''invalid_grant''"
        and r = invalid_grant_reply and t_check = 9000000 and t_store = 9000001]
    by (simp add: exchange_reply_def invalid_grant_reply_def reply_error_def expiry_or_0_def)
  have m3: "lit ''1700000000000''
      \<in> fst ` set (map (\<lambda>v. (id_v v, status v)) (videos (loadDB ?W3)))"
    by (simp only: p3) simp
  from pairs_schedule_error [OF t3 m3, of 9000002]
  have p4: "map (\<lambda>v. (id_v v, status v)) (videos (loadDB (snd
      (scheduleVideoPost (lit ''1700000000000'') 9000000 9000001 9000002
         (Payload invalid_grant_reply) ?W3))))
      = [(lit ''1700000000000'', StatusError), (lit ''1700000000000'', StatusDraft)]"
    by (simp only: p3) simp
  from p3 p4 show ?thesis
    by (intro conjI)
qed

section \<open>Properties of the parser\<close>

lemma match_re_no_marker:
  "after_marker (lit m) s = None \<Longrightarrow> match_re (Atom (Lit m) # rest) s = None"
  by (induction s) (auto split: option.splits)

lemma line_terminator_is_space: "is_line_terminator c \<Longrightarrow> is_space c"
  by (auto simp add: is_line_terminator_def is_space_def)

lemma in_cls_Space: "in_cls Space = is_space"
  by (rule ext) simp

lemma in_cls_Dot: "in_cls Dot = (\<lambda>c. \<not> is_line_terminator c)"
  by (rule ext) simp

lemma take_before_dropWhile:
  "take (length xs - length (dropWhile P xs)) xs = takeWhile P xs"
proof -
  have "length (takeWhile P xs) + length (dropWhile P xs) = length xs"
    by (metis length_append takeWhile_dropWhile_id)
  then have "length xs - length (dropWhile P xs) = length (takeWhile P xs)"
    by simp
  then show ?thesis
    by (simp add: takeWhile_eq_take [symmetric])
qed

text \<open>The greedy star offers the longest run first.\<close>

lemma m_atom_Star_hd:
  "\<exists>tl. m_atom (Star k) s = dropWhile (in_cls k) s # tl"
  by (simp add: run_length_def dropWhile_eq_drop)

lemma m_atom_Plus_hd:
  assumes "s \<noteq> []" and "in_cls k (hd s)"
  shows "\<exists>tl. m_atom (Plus k) s = dropWhile (in_cls k) s # tl"
proof -
  from assms have "1 \<le> run_length k s"
    by (cases s) (simp_all add: run_length_def)
  then have "rev [1 ..< Suc (run_length k s)] = run_length k s # rev [1 ..< run_length k s]"
    by simp
  then show ?thesis
    by (simp add: run_length_def dropWhile_eq_drop del: upt_Suc)
qed

lemma title_like_here:
  assumes "match_lit (lit m) s = Some r" and "dropWhile is_space r \<noteq> []"
  shows "\<exists>rest tl. m_seq [Atom (Lit m), Atom (Star Space), Group (Plus Dot)] (s, None)
           = (rest, Some (rest_of_line (dropWhile is_space r))) # tl"
proof -
  let ?d = "dropWhile is_space r"
  obtain tl1 where star: "m_atom (Star Space) r = ?d # tl1"
    using m_atom_Star_hd [of Space r] by (auto simp add: in_cls_Space)
  have "\<not> is_space (hd ?d)"
    using assms(2) by (rule hd_dropWhile)
  then have dot: "in_cls Dot (hd ?d)"
    using line_terminator_is_space by auto
  obtain tl2 where plus: "m_atom (Plus Dot) ?d = dropWhile (in_cls Dot) ?d # tl2"
    using m_atom_Plus_hd [OF assms(2) dot] by auto
  have cap: "take (length ?d - length (dropWhile (in_cls Dot) ?d)) ?d = rest_of_line ?d"
    by (simp only: take_before_dropWhile rest_of_line_def in_cls_Dot)
  show ?thesis
    using assms(1) star plus cap by simp
qed

lemma title_like_match:
  assumes "after_marker (lit m) s = Some r" and "dropWhile is_space r \<noteq> []"
  shows "match_re [Atom (Lit m), Atom (Star Space), Group (Plus Dot)] s
           = Some (Some (rest_of_line (dropWhile is_space r)))"
  using assms
proof (induction s)
  case Nil
  then have here: "match_lit (lit m) [] = Some r" by simp
  from title_like_here [OF here Nil.prems(2)] show ?case
    by (auto simp del: m_seq.simps)
next
  case (Cons c cs)
  show ?case
  proof (cases "match_lit (lit m) (c # cs)")
    case None
    then have "m_seq [Atom (Lit m), Atom (Star Space), Group (Plus Dot)] (c # cs, None) = []"
      by simp
    moreover from None Cons.prems have "after_marker (lit m) cs = Some r" by simp
    ultimately show ?thesis
      using Cons.IH Cons.prems(2) by (simp del: m_seq.simps)
  next
    case (Some r')
    with Cons.prems have here: "match_lit (lit m) (c # cs) = Some r" by simp
    from title_like_here [OF here Cons.prems(2)] show ?thesis
      by (auto simp del: m_seq.simps)
  qed
qed

lemma look_ok:
  "m_seq [Lookahead [Lit h, Eos]] (r, cap)
     = (if match_lit (lit h) r \<noteq> None \<or> r = [] then [(r, cap)] else [])"
  by (auto split: option.splits)

lemma drops_sufs: "map (\<lambda>n. drop n xs) [0 ..< Suc (length xs)] = sufs xs"
proof (induction xs)
  case Nil
  show ?case by simp
next
  case (Cons x xs)
  have "[0 ..< Suc (length (x # xs))] = 0 # [Suc 0 ..< Suc (Suc (length xs))]"
    by (simp only: length_Cons) (rule upt_conv_Cons, simp)
  also have "[Suc 0 ..< Suc (Suc (length xs))] = map Suc [0 ..< Suc (length xs)]"
    by (rule map_Suc_upt [symmetric])
  finally have "map (\<lambda>n. drop n (x # xs)) [0 ..< Suc (length (x # xs))]
      = (x # xs) # map (\<lambda>n. drop n xs) [0 ..< Suc (length xs)]"
    by (simp only: list.map map_map comp_def drop_0 drop_Suc_Cons)
  with Cons.IH show ?case
    by (simp only: sufs.simps)
qed

lemma lazy_candidates: "m_atom (LazyPlus AnyChar) (c # cs) = sufs cs"
proof -
  have "takeWhile (in_cls AnyChar) (c # cs) = c # cs"
    by (simp add: takeWhile_eq_all_conv)
  then have len: "run_length AnyChar (c # cs) = Suc (length cs)"
    by (simp only: run_length_def length_Cons)
  have "[1 ..< Suc (Suc (length cs))] = map Suc [0 ..< Suc (length cs)]"
    by (simp only: One_nat_def map_Suc_upt)
  then have "map (\<lambda>n. drop n (c # cs)) [1 ..< Suc (Suc (length cs))]
      = map (\<lambda>n. drop n cs) [0 ..< Suc (length cs)]"
    by (simp only: map_map comp_def drop_Suc_Cons)
  then show ?thesis
    by (simp only: m_atom.simps len drops_sufs)
qed

text \<open>
  The lazy group stops at the first suffix that starts with the marker of the lookahead,
  or at the end of the input.
\<close>

lemma lazy_first:
  "\<exists>tl. concat (map (\<lambda>r. if match_lit p r \<noteq> None \<or> r = []
                          then [(r, Some (take (length (pre @ cs) - length r) (pre @ cs)))]
                          else []) (sufs cs))
         = (drop (length (before_marker p cs)) cs, Some (pre @ before_marker p cs)) # tl"
proof (induction cs arbitrary: pre)
  case Nil
  show ?case by simp
next
  case (Cons x xs)
  show ?case
  proof (cases "match_lit p (x # xs)")
    case (Some r)
    then show ?thesis by simp
  next
    case None
    have "(pre @ [x]) @ xs = pre @ x # xs"
      and "(pre @ [x]) @ before_marker p xs = pre @ x # before_marker p xs"
      by simp_all
    with Cons.IH [of "pre @ [x]"] have
      "\<exists>tl. concat (map (\<lambda>r. if match_lit p r \<noteq> None \<or> r = []
                          then [(r, Some (take (length (pre @ x # xs) - length r) (pre @ x # xs)))]
                          else []) (sufs xs))
         = (drop (length (before_marker p xs)) xs, Some (pre @ x # before_marker p xs)) # tl"
      by (simp only:)
    with None show ?thesis by simp
  qed
qed

lemma script_here:
  assumes "match_lit (lit ''SCRIPT:'') s = Some r" and "dropWhile is_space r = c # cs"
  shows "\<exists>rest tl. m_seq script_re (s, None)
           = (rest, Some (c # before_marker (lit ''HASHTAGS:'') cs)) # tl"
proof -
  obtain tl1 where star: "m_atom (Star Space) r = (c # cs) # tl1"
    using m_atom_Star_hd [of Space r] assms(2) by (auto simp add: in_cls_Space)
  from lazy_first [of "lit ''HASHTAGS:''" "[c]" cs] obtain tl2 where
    lazy: "concat (map (\<lambda>r. if match_lit (lit ''HASHTAGS:'') r \<noteq> None \<or> r = []
                          then [(r, Some (take (length (c # cs) - length r) (c # cs)))]
                          else []) (sufs cs))
         = (drop (length (before_marker (lit ''HASHTAGS:'') cs)) cs,
            Some (c # before_marker (lit ''HASHTAGS:'') cs)) # tl2"
    by (auto simp only: append.simps)
  have inner: "m_seq [Group (LazyPlus AnyChar), Lookahead [Lit ''HASHTAGS:'', Eos]] (c # cs, None)
      = (drop (length (before_marker (lit ''HASHTAGS:'') cs)) cs,
            Some (c # before_marker (lit ''HASHTAGS:'') cs)) # tl2"
    using lazy
    by (simp only: m_seq.simps(2) [of "Group (LazyPlus AnyChar)"] m_item.simps(2)
        lazy_candidates map_map comp_def look_ok)
  have "m_seq script_re (s, None)
      = concat (map (m_seq [Group (LazyPlus AnyChar), Lookahead [Lit ''HASHTAGS:'', Eos]])
          (map (\<lambda>x. (x, None)) (m_atom (Star Space) r)))"
    using assms(1) by (simp add: script_re_def del: m_atom.simps(3,5) m_item.simps(2,3))
  also have "\<dots> = m_seq [Group (LazyPlus AnyChar), Lookahead [Lit ''HASHTAGS:'', Eos]] (c # cs, None)
      @ concat (map (m_seq [Group (LazyPlus AnyChar), Lookahead [Lit ''HASHTAGS:'', Eos]])
          (map (\<lambda>x. (x, None)) tl1))"
    by (simp only: star list.map concat.simps)
  finally show ?thesis
    by (simp only: inner append_Cons) blast
qed

lemma script_match:
  assumes "after_marker (lit ''SCRIPT:'') s = Some r" and "dropWhile is_space r = c # cs"
  shows "match_re script_re s = Some (Some (c # before_marker (lit ''HASHTAGS:'') cs))"
  using assms
proof (induction s)
  case Nil
  then have here: "match_lit (lit ''SCRIPT:'') [] = Some r" by simp
  from script_here [OF here Nil.prems(2)] show ?case
    by (auto simp del: m_seq.simps)
next
  case (Cons x xs)
  show ?case
  proof (cases "match_lit (lit ''SCRIPT:'') (x # xs)")
    case None
    then have "m_seq script_re (x # xs, None) = []"
      by (simp add: script_re_def)
    moreover from None Cons.prems have "after_marker (lit ''SCRIPT:'') xs = Some r" by simp
    ultimately show ?thesis
      using Cons.IH Cons.prems(2) by (simp del: m_seq.simps)
  next
    case (Some r')
    with Cons.prems have here: "match_lit (lit ''SCRIPT:'') (x # xs) = Some r" by simp
    from script_here [OF here Cons.prems(2)] show ?thesis
      by (auto simp del: m_seq.simps)
  qed
qed

lemma trim_solid:
  assumes "s \<noteq> []" and "\<not> is_space (hd s)"
  shows "trim s \<noteq> []"
proof
  assume "trim s = []"
  then have "list_all is_space s" by (simp add: trim_empty_iff)
  with assms show False by (cases s) simp_all
qed

lemma title_like_field:
  assumes "after_marker (lit m) text = Some r" and "dropWhile is_space r \<noteq> []"
  shows "trimmed (match_re [Atom (Lit m), Atom (Star Space), Group (Plus Dot)] text)
           = Some (trim (rest_of_line (dropWhile is_space r)))"
proof -
  let ?d = "dropWhile is_space r"
  have sp: "\<not> is_space (hd ?d)"
    using assms(2) by (rule hd_dropWhile)
  then have "\<not> is_line_terminator (hd ?d)"
    using line_terminator_is_space by blast
  with assms(2) have "rest_of_line ?d \<noteq> []" and "hd (rest_of_line ?d) = hd ?d"
    by (cases ?d; simp add: rest_of_line_def)+
  with sp have "trim (rest_of_line ?d) \<noteq> []"
    by (intro trim_solid) simp_all
  then show ?thesis
    by (simp add: title_like_match [OF assms] del: match_re.simps)
qed

lemma script_field:
  assumes "after_marker (lit ''SCRIPT:'') text = Some r" and "dropWhile is_space r = c # cs"
  shows "trimmed (match_re script_re text)
           = Some (trim (c # before_marker (lit ''HASHTAGS:'') cs))"
proof -
  have "\<not> is_space (hd (dropWhile is_space r))"
    by (rule hd_dropWhile) (simp add: assms(2))
  then have "\<not> is_space c"
    by (simp add: assms(2))
  then have "trim (c # before_marker (lit ''HASHTAGS:'') cs) \<noteq> []"
    by (intro trim_solid) simp_all
  then show ?thesis
    by (simp add: script_match [OF assms] del: match_re.simps)
qed

text \<open>
  A marker followed by white space only. Every piece of an expression leaves a suffix of
  its input behind, and the group captures a part of the input it started on: after the
  marker, a capture consists of white space, and trims to the empty string.
\<close>

lemma match_lit_drop: "match_lit p s = Some r \<Longrightarrow> r = drop (length p) s"
  by (induction p s rule: match_lit.induct) (auto split: if_splits)

lemma m_atom_drop: "x \<in> set (m_atom a s) \<Longrightarrow> \<exists>n. x = drop n s"
proof (cases a)
  case (Lit p)
  assume "x \<in> set (m_atom a s)"
  with Lit have "match_lit (lit p) s = Some x"
    by (auto split: option.splits)
  then show ?thesis
    using match_lit_drop by blast
next
  case Eos
  assume "x \<in> set (m_atom a s)"
  with Eos have "x = drop 0 s"
    by (auto split: if_splits)
  then show ?thesis ..
qed auto

lemma m_item_inv:
  assumes "(rest, cap') \<in> set (m_item i (s, cap))"
  shows "(\<exists>n. rest = drop n s) \<and> (cap' = cap \<or> (\<exists>c. cap' = Some c \<and> set c \<subseteq> set s))"
proof (cases i)
  case (Atom a)
  with assms show ?thesis
    using m_atom_drop [of rest a s] by auto
next
  case (Group a)
  with assms have "rest \<in> set (m_atom a s)" and "cap' = Some (take (length s - length rest) s)"
    by auto
  moreover have "set (take (length s - length rest) s) \<subseteq> set s"
    by (rule set_take_subset)
  ultimately show ?thesis
    using m_atom_drop [of rest a s] by blast
next
  case (Lookahead alts)
  with assms have "rest = drop 0 s" and "cap' = cap"
    by (auto split: if_splits)
  then show ?thesis
    by blast
qed

lemma m_seq_inv:
  assumes "(rest, cap') \<in> set (m_seq re (s, cap))"
  shows "(\<exists>n. rest = drop n s) \<and> (cap' = cap \<or> (\<exists>c. cap' = Some c \<and> set c \<subseteq> set s))"
  using assms
proof (induction re arbitrary: s cap)
  case Nil
  then have "rest = drop 0 s" and "cap' = cap"
    by simp_all
  then show ?case
    by blast
next
  case (Cons i re)
  from Cons.prems obtain s1 cap1 where
    step: "(s1, cap1) \<in> set (m_item i (s, cap))" and
    later: "(rest, cap') \<in> set (m_seq re (s1, cap1))"
    by auto
  from m_item_inv [OF step] obtain n where
    s1: "s1 = drop n s" and cap1: "cap1 = cap \<or> (\<exists>c. cap1 = Some c \<and> set c \<subseteq> set s)"
    by blast
  from Cons.IH [OF later] obtain k where
    rest: "rest = drop k s1" and cap': "cap' = cap1 \<or> (\<exists>c. cap' = Some c \<and> set c \<subseteq> set s1)"
    by blast
  have "set s1 \<subseteq> set s"
    unfolding s1 by (rule set_drop_subset)
  with cap1 cap' have "cap' = cap \<or> (\<exists>c. cap' = Some c \<and> set c \<subseteq> set s)"
    by blast
  moreover have "rest = drop (k + n) s"
    by (simp add: rest s1)
  ultimately show ?case
    by blast
qed

lemma blank_here:
  assumes "match_lit (lit m) s = Some r" and "list_all is_space r"
    and "(rest, cap) \<in> set (m_seq (Atom (Lit m) # re) (s, None))"
  shows "trimmed (Some cap) = None"
proof (cases cap)
  case None
  then show ?thesis by simp
next
  case (Some c)
  from assms(1,3) have "(rest, cap) \<in> set (m_seq re (r, None))"
    by simp
  from m_seq_inv [OF this] Some have "set c \<subseteq> set r"
    by auto
  with assms(2) have "list_all is_space c"
    by (auto simp add: list_all_iff)
  then have "trim c = []"
    by (simp add: trim_empty_iff)
  with Some show ?thesis by simp
qed

lemma match_re_source:
  "match_re re inp = Some cap \<Longrightarrow>
     \<exists>s \<in> set (sufs inp). \<exists>rest. (rest, cap) \<in> set (m_seq re (s, None))"
proof (induction inp)
  case Nil
  then show ?case
    by (cases "m_seq re ([], None)") (auto simp del: m_seq.simps)
next
  case (Cons c cs)
  show ?case
  proof (cases "m_seq re (c # cs, None)")
    case Nil
    with Cons.prems have "match_re re cs = Some cap"
      by (simp del: m_seq.simps)
    from Cons.IH [OF this] show ?thesis
      by (auto simp del: m_seq.simps)
  next
    case (Cons st sts)
    with Cons.prems have "st = (fst st, cap)"
      by (cases st) (simp del: m_seq.simps)
    with Cons have "(fst st, cap) \<in> set (m_seq re (c # cs, None))"
      by (metis list.set_intros(1))
    then show ?thesis
      by (auto simp del: m_seq.simps)
  qed
qed

lemma sufs_drop: "s \<in> set (sufs xs) \<Longrightarrow> \<exists>j. s = drop j xs"
proof (induction xs)
  case Nil
  then show ?case by simp
next
  case (Cons x xs)
  from Cons.prems have "s = x # xs \<or> s \<in> set (sufs xs)"
    by simp
  then show ?case
  proof
    assume "s = x # xs"
    then have "s = drop 0 (x # xs)" by simp
    then show ?thesis ..
  next
    assume "s \<in> set (sufs xs)"
    from Cons.IH [OF this] obtain j where "s = drop j xs" ..
    then have "s = drop (Suc j) (x # xs)" by simp
    then show ?thesis ..
  qed
qed

text \<open>What follows a later occurrence of the marker is a part of what follows the first.\<close>

lemma marker_rests:
  assumes "after_marker p inp = Some r" and "s \<in> set (sufs inp)" and "match_lit p s = Some r'"
  shows "set r' \<subseteq> set r"
  using assms
proof (induction inp)
  case Nil
  then show ?case by simp
next
  case (Cons c cs)
  show ?case
  proof (cases "match_lit p (c # cs)")
    case (Some r0)
    with Cons.prems(1) have "r = r0" by simp
    with Some have r: "r = drop (length p) (c # cs)"
      using match_lit_drop by blast
    from sufs_drop [OF Cons.prems(2)] obtain j where "s = drop j (c # cs)" ..
    with match_lit_drop [OF Cons.prems(3)] have "r' = drop (length p) (drop j (c # cs))"
      by simp
    also have "\<dots> = drop j r"
      unfolding r by (simp only: drop_drop add.commute)
    finally show ?thesis
      by (simp add: set_drop_subset)
  next
    case None
    with Cons.prems(1) have first: "after_marker p cs = Some r" by simp
    from Cons.prems(2) have "s = c # cs \<or> s \<in> set (sufs cs)" by simp
    then show ?thesis
    proof
      assume "s = c # cs"
      with None Cons.prems(3) show ?thesis by simp
    next
      assume "s \<in> set (sufs cs)"
      from Cons.IH [OF first this Cons.prems(3)] show ?thesis .
    qed
  qed
qed

lemma blank_field:
  assumes "after_marker (lit m) text = Some r" and "dropWhile is_space r = []"
  shows "trimmed (match_re (Atom (Lit m) # re) text) = None"
proof (cases "match_re (Atom (Lit m) # re) text")
  case None
  then show ?thesis by simp
next
  case (Some cap)
  from match_re_source [OF Some] obtain s rest where
    s: "s \<in> set (sufs text)" and res: "(rest, cap) \<in> set (m_seq (Atom (Lit m) # re) (s, None))"
    by blast
  from res obtain r' where here: "match_lit (lit m) s = Some r'"
    by (cases "match_lit (lit m) s") auto
  from assms(2) have "list_all is_space r"
    by (simp add: dropWhile_eq_Nil_conv list_all_iff)
  with marker_rests [OF assms(1) s here] have "list_all is_space r'"
    by (auto simp add: list_all_iff)
  from blank_here [OF here this res] Some show ?thesis
    by simp
qed

text \<open>
  C8, as the code has it. Each field is found by its own search of the whole text and
  has its own default: the topic for the title, the empty string for the hook, the
  whole response text for the script, a fixed string for the hashtags. A field takes its
  default when its marker does not occur in the text, in any letter case, and when the
  first occurrence of the marker is followed by white space only up to the end of the text.
  When the first occurrence of \<^verbatim>\<open>TITLE:\<close>, \<^verbatim>\<open>HOOK:\<close> or \<^verbatim>\<open>HASHTAGS:\<close> is followed by
  more than white space, the field is, after the white space that follows the marker (line
  breaks included), the rest of the line on which the text starts, trimmed; for
  \<^verbatim>\<open>SCRIPT:\<close> it is the text from its first code unit that is no white space up to the
  next \<^verbatim>\<open>HASHTAGS:\<close> that starts after that code unit (or the end), trimmed. None of
  this depends on the other fields, and hook, script and hashtags do not depend on the
  topic.
\<close>

theorem parseGeneratedScript_per_field:
  "(after_marker (lit ''TITLE:'') text = None \<longrightarrow>
      title (parseGeneratedScript text topic') = topic')
   \<and> (\<forall>r. after_marker (lit ''TITLE:'') text = Some r \<and> dropWhile is_space r = [] \<longrightarrow>
      title (parseGeneratedScript text topic') = topic')
   \<and> (\<forall>r. after_marker (lit ''TITLE:'') text = Some r \<and> dropWhile is_space r \<noteq> [] \<longrightarrow>
      title (parseGeneratedScript text topic')
        = JStr (trim (rest_of_line (dropWhile is_space r))))
   \<and> (after_marker (lit ''HOOK:'') text = None \<longrightarrow>
      hook (parseGeneratedScript text topic') = [])
   \<and> (\<forall>r. after_marker (lit ''HOOK:'') text = Some r \<and> dropWhile is_space r = [] \<longrightarrow>
      hook (parseGeneratedScript text topic') = [])
   \<and> (\<forall>r. after_marker (lit ''HOOK:'') text = Some r \<and> dropWhile is_space r \<noteq> [] \<longrightarrow>
      hook (parseGeneratedScript text topic') = trim (rest_of_line (dropWhile is_space r)))
   \<and> (after_marker (lit ''SCRIPT:'') text = None \<longrightarrow>
      script (parseGeneratedScript text topic') = text)
   \<and> (\<forall>r. after_marker (lit ''SCRIPT:'') text = Some r \<and> dropWhile is_space r = [] \<longrightarrow>
      script (parseGeneratedScript text topic') = text)
   \<and> (\<forall>r c cs. after_marker (lit ''SCRIPT:'') text = Some r \<and> dropWhile is_space r = c # cs \<longrightarrow>
      script (parseGeneratedScript text topic') = trim (c # before_marker (lit ''HASHTAGS:'') cs))
   \<and> (after_marker (lit ''HASHTAGS:'') text = None \<longrightarrow>
      hashtags (parseGeneratedScript text topic') = lit ''#shorts #viral #trending'')
   \<and> (\<forall>r. after_marker (lit ''HASHTAGS:'') text = Some r \<and> dropWhile is_space r = [] \<longrightarrow>
      hashtags (parseGeneratedScript text topic') = lit ''#shorts #viral #trending'')
   \<and> (\<forall>r. after_marker (lit ''HASHTAGS:'') text = Some r \<and> dropWhile is_space r \<noteq> [] \<longrightarrow>
      hashtags (parseGeneratedScript text topic') = trim (rest_of_line (dropWhile is_space r)))
   \<and> hook (parseGeneratedScript text topic') = hook (parseGeneratedScript text other)
   \<and> script (parseGeneratedScript text topic') = script (parseGeneratedScript text other)
   \<and> hashtags (parseGeneratedScript text topic') = hashtags (parseGeneratedScript text other)"
proof -
  have absent: "trimmed (match_re (Atom (Lit m) # rest) text) = None"
    if "after_marker (lit m) text = None" for m rest
    using that by (simp add: match_re_no_marker del: match_re.simps)
  have blank: "trimmed (match_re (Atom (Lit m) # rest) text) = None"
    if "after_marker (lit m) text = Some r \<and> dropWhile is_space r = []" for m rest r
    using that blank_field by blast
  have solid: "trimmed (match_re [Atom (Lit m), Atom (Star Space), Group (Plus Dot)] text)
      = Some (trim (rest_of_line (dropWhile is_space r)))"
    if "after_marker (lit m) text = Some r \<and> dropWhile is_space r \<noteq> []" for m r
    using that title_like_field by blast
  have body: "trimmed (match_re script_re text) = Some (trim (c # before_marker (lit ''HASHTAGS:'') cs))"
    if "after_marker (lit ''SCRIPT:'') text = Some r \<and> dropWhile is_space r = c # cs" for r c cs
    using that script_field by blast
  have t: "title (parseGeneratedScript text topic')
      = (case trimmed (match_re title_re text) of None \<Rightarrow> topic' | Some t \<Rightarrow> JStr t)"
    and h: "hook (parseGeneratedScript text tp) = trimmed_or (match_re hook_re text) []"
    and s: "script (parseGeneratedScript text tp) = trimmed_or (match_re script_re text) text"
    and g: "hashtags (parseGeneratedScript text tp)
      = trimmed_or (match_re hashtags_re text) (lit ''#shorts #viral #trending'')" for tp
    by (simp_all add: parseGeneratedScript_def)
  have t1: "after_marker (lit ''TITLE:'') text = None \<longrightarrow>
      title (parseGeneratedScript text topic') = topic'"
  proof (intro impI)
    assume a: "after_marker (lit ''TITLE:'') text = None"
    from absent [OF a]
    show "title (parseGeneratedScript text topic') = topic'"
      by (simp only: t title_re_def trimmed_or_def option.case)
  qed
  have t2: "\<forall>r. after_marker (lit ''TITLE:'') text = Some r \<and> dropWhile is_space r = [] \<longrightarrow>
      title (parseGeneratedScript text topic') = topic'"
  proof (intro allI impI)
    fix r assume a: "after_marker (lit ''TITLE:'') text = Some r \<and> dropWhile is_space r = []"
    from blank [OF a]
    show "title (parseGeneratedScript text topic') = topic'"
      by (simp only: t title_re_def trimmed_or_def option.case)
  qed
  have t3: "\<forall>r. after_marker (lit ''TITLE:'') text = Some r \<and> dropWhile is_space r \<noteq> [] \<longrightarrow>
      title (parseGeneratedScript text topic') = JStr (trim (rest_of_line (dropWhile is_space r)))"
  proof (intro allI impI)
    fix r assume a: "after_marker (lit ''TITLE:'') text = Some r \<and> dropWhile is_space r \<noteq> []"
    from solid [OF a]
    show "title (parseGeneratedScript text topic') = JStr (trim (rest_of_line (dropWhile is_space r)))"
      by (simp only: t title_re_def trimmed_or_def option.case)
  qed
  have h1: "after_marker (lit ''HOOK:'') text = None \<longrightarrow>
      hook (parseGeneratedScript text topic') = []"
  proof (intro impI)
    assume a: "after_marker (lit ''HOOK:'') text = None"
    from absent [OF a]
    show "hook (parseGeneratedScript text topic') = []"
      by (simp only: h hook_re_def trimmed_or_def option.case)
  qed
  have h2: "\<forall>r. after_marker (lit ''HOOK:'') text = Some r \<and> dropWhile is_space r = [] \<longrightarrow>
      hook (parseGeneratedScript text topic') = []"
  proof (intro allI impI)
    fix r assume a: "after_marker (lit ''HOOK:'') text = Some r \<and> dropWhile is_space r = []"
    from blank [OF a]
    show "hook (parseGeneratedScript text topic') = []"
      by (simp only: h hook_re_def trimmed_or_def option.case)
  qed
  have h3: "\<forall>r. after_marker (lit ''HOOK:'') text = Some r \<and> dropWhile is_space r \<noteq> [] \<longrightarrow>
      hook (parseGeneratedScript text topic') = trim (rest_of_line (dropWhile is_space r))"
  proof (intro allI impI)
    fix r assume a: "after_marker (lit ''HOOK:'') text = Some r \<and> dropWhile is_space r \<noteq> []"
    from solid [OF a]
    show "hook (parseGeneratedScript text topic') = trim (rest_of_line (dropWhile is_space r))"
      by (simp only: h hook_re_def trimmed_or_def option.case)
  qed
  have s1: "after_marker (lit ''SCRIPT:'') text = None \<longrightarrow>
      script (parseGeneratedScript text topic') = text"
  proof (intro impI)
    assume a: "after_marker (lit ''SCRIPT:'') text = None"
    from absent [OF a]
    show "script (parseGeneratedScript text topic') = text"
      by (simp only: s script_re_def trimmed_or_def option.case)
  qed
  have s2: "\<forall>r. after_marker (lit ''SCRIPT:'') text = Some r \<and> dropWhile is_space r = [] \<longrightarrow>
      script (parseGeneratedScript text topic') = text"
  proof (intro allI impI)
    fix r assume a: "after_marker (lit ''SCRIPT:'') text = Some r \<and> dropWhile is_space r = []"
    from blank [OF a]
    show "script (parseGeneratedScript text topic') = text"
      by (simp only: s script_re_def trimmed_or_def option.case)
  qed
  have s3: "\<forall>r c cs. after_marker (lit ''SCRIPT:'') text = Some r \<and> dropWhile is_space r = c # cs \<longrightarrow>
      script (parseGeneratedScript text topic') = trim (c # before_marker (lit ''HASHTAGS:'') cs)"
  proof (intro allI impI)
    fix r c cs assume a: "after_marker (lit ''SCRIPT:'') text = Some r \<and> dropWhile is_space r = c # cs"
    from body [OF a]
    show "script (parseGeneratedScript text topic') = trim (c # before_marker (lit ''HASHTAGS:'') cs)"
      by (simp only: s trimmed_or_def option.case)
  qed
  have g1: "after_marker (lit ''HASHTAGS:'') text = None \<longrightarrow>
      hashtags (parseGeneratedScript text topic') = lit ''#shorts #viral #trending''"
  proof (intro impI)
    assume a: "after_marker (lit ''HASHTAGS:'') text = None"
    from absent [OF a]
    show "hashtags (parseGeneratedScript text topic') = lit ''#shorts #viral #trending''"
      by (simp only: g hashtags_re_def trimmed_or_def option.case)
  qed
  have g2: "\<forall>r. after_marker (lit ''HASHTAGS:'') text = Some r \<and> dropWhile is_space r = [] \<longrightarrow>
      hashtags (parseGeneratedScript text topic') = lit ''#shorts #viral #trending''"
  proof (intro allI impI)
    fix r assume a: "after_marker (lit ''HASHTAGS:'') text = Some r \<and> dropWhile is_space r = []"
    from blank [OF a]
    show "hashtags (parseGeneratedScript text topic') = lit ''#shorts #viral #trending''"
      by (simp only: g hashtags_re_def trimmed_or_def option.case)
  qed
  have g3: "\<forall>r. after_marker (lit ''HASHTAGS:'') text = Some r \<and> dropWhile is_space r \<noteq> [] \<longrightarrow>
      hashtags (parseGeneratedScript text topic') = trim (rest_of_line (dropWhile is_space r))"
  proof (intro allI impI)
    fix r assume a: "after_marker (lit ''HASHTAGS:'') text = Some r \<and> dropWhile is_space r \<noteq> []"
    from solid [OF a]
    show "hashtags (parseGeneratedScript text topic') = trim (rest_of_line (dropWhile is_space r))"
      by (simp only: g hashtags_re_def trimmed_or_def option.case)
  qed
  have i: "hook (parseGeneratedScript text topic') = hook (parseGeneratedScript text other)"
    "script (parseGeneratedScript text topic') = script (parseGeneratedScript text other)"
    "hashtags (parseGeneratedScript text topic') = hashtags (parseGeneratedScript text other)"
    by (simp_all only: h s g)
  from t1 t2 t3 h1 h2 h3 s1 s2 s3 g1 g2 g3 i show ?thesis
    by (intro conjI)
qed

theorem parseGeneratedScript_per_field_witness:
  "after_marker (lit ''TITLE:'') (lit ''Hook: Wow! '') = None
   \<and> after_marker (lit ''HOOK:'') (lit ''Hook: Wow! '') = Some (lit '' Wow! '')
   \<and> after_marker (lit ''SCRIPT:'') (lit ''Hook: Wow! '') = None
   \<and> after_marker (lit ''HASHTAGS:'') (lit ''Hook: Wow! '') = None
   \<and> parseGeneratedScript (lit ''Hook: Wow! '') (JStr (lit ''cats''))
       = \<lparr>title = JStr (lit ''cats''), hook = lit ''Wow!'', script = lit ''Hook: Wow! '',
          hashtags = lit ''#shorts #viral #trending''\<rparr>
   \<and> after_marker (lit ''HOOK:'') labelled_reply = None
   \<and> parseGeneratedScript labelled_reply (JStr (lit ''cats''))
       = \<lparr>title = JStr (lit ''Cats rule''), hook = [], script = lit ''Cats are great.'',
          hashtags = lit ''#cats #fyp''\<rparr>
   \<and> after_marker (lit ''TITLE:'') (lit ''TITLE:  '') = Some (lit ''  '')
   \<and> dropWhile is_space (lit ''  '') = []
   \<and> title (parseGeneratedScript (lit ''TITLE:  '') (JStr (lit ''cats''))) = JStr (lit ''cats'')
   \<and> title (parseGeneratedScript (lit ''TITLE:'' @ [10] @ lit ''HOOK: h'') (JStr (lit ''cats'')))
       = JStr (lit ''HOOK: h'')
   \<and> script (parseGeneratedScript (lit ''SCRIPT: HASHTAGS: #a'') (JStr (lit ''cats'')))
       = lit ''HASHTAGS: #a''"
proof -
  note ev = canon_def rest_of_line_def trim_def is_space_def is_line_terminator_def
  have a1: "after_marker (lit ''TITLE:'') (lit ''Hook: Wow! '') = None"
    and a2: "after_marker (lit ''HOOK:'') (lit ''Hook: Wow! '') = Some (lit '' Wow! '')"
    and a3: "after_marker (lit ''SCRIPT:'') (lit ''Hook: Wow! '') = None"
    and a4: "after_marker (lit ''HASHTAGS:'') (lit ''Hook: Wow! '') = None"
    by (simp_all add: canon_def)
  have a2': "dropWhile is_space (lit '' Wow! '') \<noteq> []"
    and a2'': "trim (rest_of_line (dropWhile is_space (lit '' Wow! ''))) = lit ''Wow!''"
    by (simp_all add: ev)
  have b1: "after_marker (lit ''TITLE:'') labelled_reply
        = Some (lit '' Cats rule'' @ [10] @ lit ''script: Cats are great. '' @ [10]
                @ lit ''HASHTAGS: #cats #fyp'')"
    and b2: "after_marker (lit ''HOOK:'') labelled_reply = None"
    and b3: "after_marker (lit ''SCRIPT:'') labelled_reply
        = Some (lit '' Cats are great. '' @ [10] @ lit ''HASHTAGS: #cats #fyp'')"
    and b4: "after_marker (lit ''HASHTAGS:'') labelled_reply = Some (lit '' #cats #fyp'')"
    by (simp_all add: labelled_reply_def canon_def)
  have b1': "dropWhile is_space (lit '' Cats rule'' @ [10] @ lit ''script: Cats are great. '' @ [10]
                @ lit ''HASHTAGS: #cats #fyp'') \<noteq> []"
    and b1'': "trim (rest_of_line (dropWhile is_space (lit '' Cats rule'' @ [10]
                @ lit ''script: Cats are great. '' @ [10] @ lit ''HASHTAGS: #cats #fyp'')))
              = lit ''Cats rule''"
    and b3': "dropWhile is_space (lit '' Cats are great. '' @ [10] @ lit ''HASHTAGS: #cats #fyp'')
              = 67 # (lit ''ats are great. '' @ [10] @ lit ''HASHTAGS: #cats #fyp'')"
    and b3'': "trim (67 # before_marker (lit ''HASHTAGS:'')
                 (lit ''ats are great. '' @ [10] @ lit ''HASHTAGS: #cats #fyp''))
              = lit ''Cats are great.''"
    and b4': "dropWhile is_space (lit '' #cats #fyp'') \<noteq> []"
    and b4'': "trim (rest_of_line (dropWhile is_space (lit '' #cats #fyp''))) = lit ''#cats #fyp''"
    by (simp_all add: ev)
  have c1: "after_marker (lit ''TITLE:'') (lit ''TITLE:  '') = Some (lit ''  '')"
    by (simp add: canon_def)
  have c1': "dropWhile is_space (lit ''  '') = []"
    by (simp add: is_space_def)
  have d1: "after_marker (lit ''TITLE:'') (lit ''TITLE:'' @ [10] @ lit ''HOOK: h'')
      = Some ([10] @ lit ''HOOK: h'')"
    by (simp add: canon_def)
  have d1': "dropWhile is_space ([10] @ lit ''HOOK: h'') \<noteq> []"
    and d1'': "trim (rest_of_line (dropWhile is_space ([10] @ lit ''HOOK: h''))) = lit ''HOOK: h''"
    by (simp_all add: ev)
  have e1: "after_marker (lit ''SCRIPT:'') (lit ''SCRIPT: HASHTAGS: #a'') = Some (lit '' HASHTAGS: #a'')"
    by (simp add: canon_def)
  have e1': "dropWhile is_space (lit '' HASHTAGS: #a'') = 72 # lit ''ASHTAGS: #a''"
    and e1'': "trim (72 # before_marker (lit ''HASHTAGS:'') (lit ''ASHTAGS: #a'')) = lit ''HASHTAGS: #a''"
    by (simp_all add: ev)
  note first = parseGeneratedScript_per_field [of "lit ''Hook: Wow! ''" "JStr (lit ''cats'')" "JStr (lit ''dogs'')"]
  note second = parseGeneratedScript_per_field [of labelled_reply "JStr (lit ''cats'')" "JStr (lit ''dogs'')"]
  note third = parseGeneratedScript_per_field [of "lit ''TITLE:  ''" "JStr (lit ''cats'')" "JStr (lit ''dogs'')"]
  note fourth = parseGeneratedScript_per_field [of "lit ''TITLE:'' @ [10] @ lit ''HOOK: h''" "JStr (lit ''cats'')" "JStr (lit ''dogs'')"]
  note fifth = parseGeneratedScript_per_field [of "lit ''SCRIPT: HASHTAGS: #a''" "JStr (lit ''cats'')" "JStr (lit ''dogs'')"]
  have t1: "title (parseGeneratedScript (lit ''Hook: Wow! '') (JStr (lit ''cats'')))
      = JStr (lit ''cats'')"
    using first a1 by blast
  have k1: "hook (parseGeneratedScript (lit ''Hook: Wow! '') (JStr (lit ''cats''))) = lit ''Wow!''"
    using first a2 a2' a2'' by metis
  have s1: "script (parseGeneratedScript (lit ''Hook: Wow! '') (JStr (lit ''cats'')))
      = lit ''Hook: Wow! ''"
    using first a3 by blast
  have g1: "hashtags (parseGeneratedScript (lit ''Hook: Wow! '') (JStr (lit ''cats'')))
      = lit ''#shorts #viral #trending''"
    using first a4 by blast
  have t2: "title (parseGeneratedScript labelled_reply (JStr (lit ''cats''))) = JStr (lit ''Cats rule'')"
    using second b1 b1' b1'' by metis
  have k2: "hook (parseGeneratedScript labelled_reply (JStr (lit ''cats''))) = []"
    using second b2 by blast
  have s2: "script (parseGeneratedScript labelled_reply (JStr (lit ''cats''))) = lit ''Cats are great.''"
    using second b3 b3' b3'' by metis
  have g2: "hashtags (parseGeneratedScript labelled_reply (JStr (lit ''cats''))) = lit ''#cats #fyp''"
    using second b4 b4' b4'' by metis
  have t3: "title (parseGeneratedScript (lit ''TITLE:  '') (JStr (lit ''cats''))) = JStr (lit ''cats'')"
    using third c1 c1' by blast
  have t4: "title (parseGeneratedScript (lit ''TITLE:'' @ [10] @ lit ''HOOK: h'') (JStr (lit ''cats'')))
       = JStr (lit ''HOOK: h'')"
    using fourth d1 d1' d1'' by metis
  have s5: "script (parseGeneratedScript (lit ''SCRIPT: HASHTAGS: #a'') (JStr (lit ''cats'')))
       = lit ''HASHTAGS: #a''"
    using fifth e1 e1' e1'' by metis
  have one: "parseGeneratedScript (lit ''Hook: Wow! '') (JStr (lit ''cats''))
       = \<lparr>title = JStr (lit ''cats''), hook = lit ''Wow!'', script = lit ''Hook: Wow! '',
          hashtags = lit ''#shorts #viral #trending''\<rparr>"
    using t1 k1 s1 g1 by (intro generated.equality) simp_all
  have two: "parseGeneratedScript labelled_reply (JStr (lit ''cats''))
       = \<lparr>title = JStr (lit ''Cats rule''), hook = [], script = lit ''Cats are great.'',
          hashtags = lit ''#cats #fyp''\<rparr>"
    using t2 k2 s2 g2 by (intro generated.equality) simp_all
  from a1 a2 a3 a4 b2 one two c1 c1' t3 t4 s5 show ?thesis
    by (intro conjI)
qed

lemmas re_defs = title_re_def hook_re_def script_re_def hashtags_re_def canon_def
  run_length_def is_space_def is_line_terminator_def trim_def

text \<open>
  The defaults of hook, script and hashtags are not derived from the topic: the same text
  parsed for two topics differs in the title only, and the script default is the text
  itself. The search is not anchored at the start of a line either: \<^verbatim>\<open>subtitle: x\<close>
  yields the title \<^verbatim>\<open>x\<close>.
\<close>

theorem parseGeneratedScript_defaults_counterexample:
  "parseGeneratedScript (lit ''hello'') (JStr (lit ''cats''))
     = \<lparr>title = JStr (lit ''cats''), hook = [], script = lit ''hello'',
        hashtags = lit ''#shorts #viral #trending''\<rparr>
   \<and> parseGeneratedScript (lit ''hello'') (JStr (lit ''dogs''))
     = \<lparr>title = JStr (lit ''dogs''), hook = [], script = lit ''hello'',
        hashtags = lit ''#shorts #viral #trending''\<rparr>
   \<and> title (parseGeneratedScript (lit ''subtitle: x'') (JStr (lit ''cats''))) = JStr (lit ''x'')"
proof -
  have "match_re title_re (lit ''hello'') = None" and "match_re hook_re (lit ''hello'') = None"
    and "match_re script_re (lit ''hello'') = None" and "match_re hashtags_re (lit ''hello'') = None"
    and "trimmed (match_re title_re (lit ''subtitle: x'')) = Some (lit ''x'')"
    by (simp_all add: re_defs)
  then show ?thesis
    by (simp add: parseGeneratedScript_def trimmed_or_def del: match_re.simps)
qed

end
